theory Spec2Isabelle
  imports Main "HOL-Library.Word"
begin

section \<open>gologger: an asynchronous logger with console, syslog and daily-file sinks\<close>

text \<open>
  A shallow embedding of \<^verbatim>\<open>main.go\<close> (package \<^verbatim>\<open>gologger\<close>). Go strings are byte
  strings and are modelled as \<^typ>\<open>string\<close>. Everything the Go code asks of its
  environment (the clock, the call stack, the results of the syslog and file operations)
  is an explicit argument, and everything it does to its environment is returned as a
  list of events in the order in which it happens.
\<close>

subsection \<open>Decimal rendering, as the verbs \<^verbatim>\<open>%d\<close> and \<^verbatim>\<open>%02d\<close> of fmt print it\<close>

definition digit_char :: "int \<Rightarrow> char" where
  "digit_char n = char_of (48 + n)"

function show_nat :: "int \<Rightarrow> string" where
  "show_nat n = (if n < 10 then [digit_char n] else show_nat (n div 10) @ [digit_char (n mod 10)])"
  by pat_completeness auto
termination
  by (relation "measure nat") auto

declare show_nat.simps [simp del]

text \<open>\<open>show_nat\<close> is for numbers from 0 on; \<open>show_int\<close> puts the sign before the others.\<close>

definition show_int :: "int \<Rightarrow> string" where
  "show_int i = (if i < 0 then CHR ''-'' # show_nat (- i) else show_nat i)"

text \<open>Padding with zeros on the left up to a minimal width (a longer text is kept whole).\<close>

definition zpad :: "nat \<Rightarrow> string \<Rightarrow> string" where
  "zpad k s = replicate (k - length s) (CHR ''0'') @ s"

text \<open>
  The verb \<^verbatim>\<open>%c\<close> applied to a byte prints the Unicode code point of that number in
  UTF-8: one byte below 128, two bytes from 128 on.
\<close>

definition fmt_c :: "char \<Rightarrow> string" where
  "fmt_c b = (let n = (of_char b :: nat) in
     if n < 128 then [b] else [char_of (192 + n div 64), char_of (128 + n mod 64)])"

subsection \<open>The data model\<close>

text \<open>The severities of \<^verbatim>\<open>log/syslog\<close> that the source names; \<^verbatim>\<open>syslog.Priority\<close> is an int.\<close>

definition LOG_ERR :: int where "LOG_ERR = 3"
definition LOG_WARNING :: int where "LOG_WARNING = 4"
definition LOG_INFO :: int where "LOG_INFO = 6"
definition LOG_DEBUG :: int where "LOG_DEBUG = 7"

text \<open>
  A buffered channel of strings: the pending messages, oldest first, and the capacity
  given to \<^verbatim>\<open>make\<close>.
\<close>

record chan =
  buf :: "string list"
  cap :: nat

text \<open>
  \<^verbatim>\<open>*syslog.Writer\<close> and \<^verbatim>\<open>*os.File\<close>. The logger holds the only reference to either
  object, so the object's state is kept in the field itself. An \<^verbatim>\<open>os.File\<close> knows its
  name and whether \<^verbatim>\<open>Close\<close> has been called on it.
\<close>

record syslog_Writer =
  sw_tag :: string

record os_File =
  f_name :: string
  f_closed :: bool

record Log =
  logChan :: chan
  syslogWriter :: "syslog_Writer option"
  fileWriter :: "os_File option"
  SyslogTag :: string
  Priority :: int
  SendToStdout :: bool
  SendToSyslog :: bool
  SendToLogfile :: bool

text \<open>A frame of the call stack: the function's name as the runtime reports it, and a line.\<close>

record frame =
  fn_name :: string
  fn_line :: int

text \<open>The values an \<^verbatim>\<open>interface{}\<close> cause can hold, by the cases of the type switch.\<close>

datatype cause =
    ErrorValue string   \<comment> \<open>a value with an \<^verbatim>\<open>Error()\<close> method, and what the method returns\<close>
  | StringValue string
  | ByteValue "8 word"
  | IntValue int
  | NilValue
  | OtherValue string   \<comment> \<open>a value of any other type, and what \<^verbatim>\<open>%v\<close> prints for it\<close>

datatype panic = InterfaceConversion

text \<open>
  The variadic arguments \<^verbatim>\<open>v ...interface{}\<close>. \<open>None\<close> is the nil slice of a call
  without them. A non-nil slice is represented by what \<^verbatim>\<open>fmt.Sprintf(format, v...)\<close>
  returns for each format.
\<close>

type_synonym varargs = "(string \<Rightarrow> string) option"

datatype open_flag = O_APPEND | O_CREATE | O_WRONLY

text \<open>
  What the code does to its environment, in order. A call that can fail carries the error
  it returned (\<open>None\<close> when it succeeded).
\<close>

datatype event =
    Sprintf string                         \<comment> \<open>the prompt was formatted; the format\<close>
  | Caller nat                             \<comment> \<open>\<^verbatim>\<open>runtime.Caller(skip)\<close>\<close>
  | Send string                            \<comment> \<open>a completed \<^verbatim>\<open>l.logChan <- s\<close>\<close>
  | Print string "string option"           \<comment> \<open>\<^verbatim>\<open>fmt.Print\<close> to standard output\<close>
  | SyslogNew int string "string option"   \<comment> \<open>\<^verbatim>\<open>syslog.New(priority, tag)\<close>\<close>
  | SyslogWrite string "string option"
  | FileClose string "string option"
  | OpenFile string "open_flag list" int "string option"
      \<comment> \<open>name, flags, permission bits\<close>
  | FileWrite "string option" string "string option"
      \<comment> \<open>the file's name (\<open>None\<close> for a nil \<^verbatim>\<open>*os.File\<close>), the data\<close>
  | Sleep int                              \<comment> \<open>milliseconds\<close>

text \<open>How a call ends: it returns, it blocks in a channel send, or it panics.\<close>

datatype result = Returned | Blocked | Panicked

subsection \<open>\<^verbatim>\<open>anyErrToString\<close>\<close>

text \<open>
  In the case \<^verbatim>\<open>byte, int\<close> the switch variable keeps the interface type, and the
  assertion \<^verbatim>\<open>e.(byte)\<close> panics when \<^verbatim>\<open>e\<close> holds an int. In the default case the switch
  variable \<^verbatim>\<open>t\<close> is the value itself, so both \<^verbatim>\<open>%v\<close> print the value.
\<close>

definition fmt_v :: "cause \<Rightarrow> string" where
  "fmt_v e = (case e of
       ErrorValue m \<Rightarrow> m
     | StringValue s \<Rightarrow> s
     | ByteValue b \<Rightarrow> show_nat (uint b)
     | IntValue i \<Rightarrow> show_int i
     | NilValue \<Rightarrow> ''<nil>''
     | OtherValue s \<Rightarrow> s)"

definition anyErrToString :: "cause \<Rightarrow> string \<Rightarrow> panic + string" where
  "anyErrToString e prompt = (case e of
       ErrorValue m \<Rightarrow> Inr (prompt @ '' err{'' @ m @ ''}'')
     | StringValue s \<Rightarrow> Inr (prompt @ '' err{'' @ s @ ''}'')
     | ByteValue b \<Rightarrow> Inr (prompt @ '' RC:'' @ zpad 2 (show_nat (uint b)))
     | IntValue i \<Rightarrow> Inl InterfaceConversion
     | _ \<Rightarrow> Inr (prompt @ '' ???{type('' @ fmt_v e @ '')='' @ fmt_v e @ ''}''))"

subsection \<open>\<^verbatim>\<open>Log\<close>: caller resolution, the line layout, the enqueue\<close>

text \<open>
  The pattern \<^verbatim>\<open>\(\*([0-z_]+)\)\.([0-z_\(\)]+)$\<close>. The class \<^verbatim>\<open>[0-z_]\<close> is the byte range
  from \<^verbatim>\<open>0\<close> (48) to \<^verbatim>\<open>z\<close> (122) with the underscore; the second class adds the two
  parentheses. Neither class holds \<^verbatim>\<open>*\<close> or the dot, and the first holds no parenthesis,
  so from a given start the greedy match is determined: the longest run of the first
  class, then \<^verbatim>\<open>).\<close>, then a run of the second class up to the end of the text.
\<close>

definition class1 :: "char \<Rightarrow> bool" where
  "class1 c = ((48 \<le> (of_char c :: nat) \<and> (of_char c :: nat) \<le> 122) \<or> c = CHR ''_'')"

definition class2 :: "char \<Rightarrow> bool" where
  "class2 c = ((48 \<le> (of_char c :: nat) \<and> (of_char c :: nat) \<le> 122) \<or> c = CHR ''_''
     \<or> c = CHR ''('' \<or> c = CHR '')'')"

definition match_here :: "string \<Rightarrow> (string \<times> string) option" where
  "match_here s = (case s of
       a # b # r \<Rightarrow>
         if a = CHR ''('' \<and> b = CHR ''*'' then
           (let g1 = takeWhile class1 r in
            if g1 = [] then None
            else (case dropWhile class1 r of
                    c # d # g2 \<Rightarrow>
                      if c = CHR '')'' \<and> d = CHR ''.'' \<and> g2 \<noteq> [] \<and> list_all class2 g2
                      then Some (g1, g2) else None
                  | _ \<Rightarrow> None))
         else None
     | _ \<Rightarrow> None)"

text \<open>
  \<^verbatim>\<open>FindStringSubmatch\<close>: the leftmost match, as the whole match followed by the two
  groups; \<open>None\<close> is the nil slice.
\<close>

fun FindStringSubmatch :: "string \<Rightarrow> string list option" where
  "FindStringSubmatch [] = None"
| "FindStringSubmatch (c # cs) =
     (case match_here (c # cs) of
        Some (g1, g2) \<Rightarrow> Some [[CHR ''('', CHR ''*''] @ g1 @ [CHR '')'', CHR ''.''] @ g2, g1, g2]
      | None \<Rightarrow> FindStringSubmatch cs)"

text \<open>\<^verbatim>\<open>runtime.Caller(skip)\<close> on a stack given innermost frame first.\<close>

definition runtime_Caller :: "frame list \<Rightarrow> nat \<Rightarrow> frame option" where
  "runtime_Caller stk skip = (if skip < length stk then Some (stk ! skip) else None)"

text \<open>Lines 108 to 123: the name and the line that \<^verbatim>\<open>Log\<close> reports for a stack.\<close>

definition funcName_of :: "string \<Rightarrow> string" where
  "funcName_of name = (case FindStringSubmatch name of
       None \<Rightarrow> name
     | Some match \<Rightarrow>
         (if length match > 2 then match ! 1 @ ''.'' @ match ! (length match - 1)
          else match ! 1))"

definition caller_info :: "frame list \<Rightarrow> nat \<Rightarrow> string \<times> int" where
  "caller_info stk skip = (case runtime_Caller stk skip of
       None \<Rightarrow> (''<nf>'', 0)
     | Some fr \<Rightarrow> (funcName_of (fn_name fr), fn_line fr))"

definition newline :: char where
  "newline = CHR 0x0A"

definition log_line :: "char \<Rightarrow> string \<Rightarrow> int \<Rightarrow> string \<Rightarrow> string" where
  "log_line level funcName line message =
     ''|'' @ fmt_c level @ ''|'' @ funcName @ ''():'' @ show_int line @ '' '' @ message @ [newline]"

text \<open>The import path of the package, which the runtime puts before every function name.\<close>

definition pkg :: string where
  "pkg = ''github.com/danielwiratman/gologger''"

definition method_frame :: "string \<Rightarrow> int \<Rightarrow> frame" where
  "method_frame m n = \<lparr>fn_name = pkg @ ''.(*Log).'' @ m, fn_line = n\<rparr>"

text \<open>
  \<open>stk\<close> is the stack of the call to \<^verbatim>\<open>Log\<close>, innermost first: its head is the frame of
  the function that called \<^verbatim>\<open>Log\<close>. \<^verbatim>\<open>Log\<close> puts its own frame (line 107) in front. A
  send on a full channel blocks.
\<close>

definition Log :: "Log \<Rightarrow> frame list \<Rightarrow> nat \<Rightarrow> char \<Rightarrow> string \<Rightarrow> result \<times> Log \<times> event list" where
  "Log l stk stackTraceDepth level message =
     (let (funcName, line) = caller_info (method_frame ''Log'' 107 # stk) (2 + stackTraceDepth);
          s = log_line level funcName line message
      in if length (buf (logChan l)) < cap (logChan l)
         then (Returned, l\<lparr>logChan := (logChan l)\<lparr>buf := buf (logChan l) @ [s]\<rparr>\<rparr>,
               [Caller (2 + stackTraceDepth), Send s])
         else (Blocked, l, [Caller (2 + stackTraceDepth)]))"

subsection \<open>The facade: \<^verbatim>\<open>ERR\<close>, \<^verbatim>\<open>WRN\<close>, \<^verbatim>\<open>INF\<close>, \<^verbatim>\<open>DBG\<close>\<close>

text \<open>\<open>callers\<close> is the stack of the call to the facade function, innermost first.\<close>

definition format_prompt :: "string \<Rightarrow> varargs \<Rightarrow> string \<times> event list" where
  "format_prompt prompt v = (case v of
       None \<Rightarrow> (prompt, [])
     | Some args \<Rightarrow> (args prompt, [Sprintf prompt]))"

definition ERR :: "Log \<Rightarrow> frame list \<Rightarrow> cause \<Rightarrow> string \<Rightarrow> varargs \<Rightarrow> result \<times> Log \<times> event list" where
  "ERR l callers e prompt v =
     (if Priority l < LOG_ERR then (Returned, l, [])
      else (let (prompt', ev) = format_prompt prompt v in
            case anyErrToString e prompt' of
              Inl p \<Rightarrow> (Panicked, l, ev)
            | Inr s \<Rightarrow>
                (case Log l (method_frame ''ERR'' 138 # callers) 0 (CHR ''E'') s of
                   (r, l', ev') \<Rightarrow> (r, l', ev @ ev'))))"

definition WRN :: "Log \<Rightarrow> frame list \<Rightarrow> string \<Rightarrow> varargs \<Rightarrow> result \<times> Log \<times> event list" where
  "WRN l callers prompt v =
     (if Priority l < LOG_WARNING then (Returned, l, [])
      else (let (prompt', ev) = format_prompt prompt v in
            case Log l (method_frame ''WRN'' 148 # callers) 0 (CHR ''W'') prompt' of
              (r, l', ev') \<Rightarrow> (r, l', ev @ ev')))"

text \<open>\<^verbatim>\<open>INF\<close>; the name is suffixed because \<open>INF\<close> is the infimum binder of HOL.\<close>

definition INF_call :: "Log \<Rightarrow> frame list \<Rightarrow> string \<Rightarrow> varargs \<Rightarrow> result \<times> Log \<times> event list" where
  "INF_call l callers prompt v =
     (if Priority l < LOG_INFO then (Returned, l, [])
      else (let (prompt', ev) = format_prompt prompt v in
            case Log l (method_frame ''INF'' 158 # callers) 0 (CHR ''I'') prompt' of
              (r, l', ev') \<Rightarrow> (r, l', ev @ ev')))"

definition DBG :: "Log \<Rightarrow> frame list \<Rightarrow> string \<Rightarrow> varargs \<Rightarrow> result \<times> Log \<times> event list" where
  "DBG l callers prompt v =
     (if Priority l < LOG_DEBUG then (Returned, l, [])
      else (let (prompt', ev) = format_prompt prompt v in
            case Log l (method_frame ''DBG'' 168 # callers) 0 (CHR ''D'') prompt' of
              (r, l', ev') \<Rightarrow> (r, l', ev @ ev')))"

subsection \<open>The environment of the worker\<close>

text \<open>A reading of the clock, by the int components that \<^verbatim>\<open>time.Time\<close> gives.\<close>

record Time =
  t_year :: int
  t_month :: int
  t_day :: int
  t_hour :: int
  t_minute :: int
  t_second :: int
  t_nsec :: int

text \<open>
  The layouts \<^verbatim>\<open>15:04:05.0000\<close> (four digits of the fraction of the second, cut off)
  and \<^verbatim>\<open>2006-01-02\<close> of \<^verbatim>\<open>Time.Format\<close>.
\<close>

definition Format_stamp :: "Time \<Rightarrow> string" where
  "Format_stamp t =
     zpad 2 (show_nat (t_hour t)) @ '':'' @ zpad 2 (show_nat (t_minute t)) @ '':'' @
     zpad 2 (show_nat (t_second t)) @ ''.'' @ zpad 4 (show_nat (t_nsec t div 100000))"

definition Format_date :: "Time \<Rightarrow> string" where
  "Format_date t =
     zpad 4 (show_nat (t_year t)) @ ''-'' @ zpad 2 (show_nat (t_month t)) @ ''-'' @
     zpad 2 (show_nat (t_day t))"

text \<open>
  \<^verbatim>\<open>filepath.Base\<close> with the separator \<^verbatim>\<open>/\<close>: trailing separators are dropped, then
  the last element is taken; the empty path gives a dot, a path of separators only gives
  one separator.
\<close>

definition filepath_Base :: "string \<Rightarrow> string" where
  "filepath_Base path =
     (if path = [] then ''.''
      else (let p = rev (dropWhile (\<lambda>c. c = CHR ''/'') (rev path));
                q = rev (takeWhile (\<lambda>c. c \<noteq> CHR ''/'') (rev p))
            in if q = [] then ''/'' else q))"

text \<open>
  The world the worker runs in. \<open>clock\<close> is the last reading of \<^verbatim>\<open>time.Now\<close> and
  \<open>ticks\<close> are the readings to come, one for each call (after the last of them the
  clock stands still). \<open>os_results\<close> are the errors (\<open>None\<close> for success) that the
  next calls reaching the operating system will return, one for each call (print,
  \<^verbatim>\<open>syslog.New\<close>, a write, a close, \<^verbatim>\<open>os.OpenFile\<close>); the calls after these succeed.
  \<open>args0\<close> is \<^verbatim>\<open>os.Args[0]\<close>, and \<open>goroutine_base\<close> holds the frames below \<^verbatim>\<open>daemon\<close>
  on the worker's stack.
\<close>

record world =
  clock :: Time
  ticks :: "Time list"
  os_results :: "string option list"
  args0 :: string
  goroutine_base :: "frame list"

definition time_Now :: "world \<Rightarrow> Time \<times> world" where
  "time_Now w = (case ticks w of
       [] \<Rightarrow> (clock w, w)
     | t # ts \<Rightarrow> (t, w\<lparr>clock := t, ticks := ts\<rparr>))"

definition os_call :: "world \<Rightarrow> string option \<times> world" where
  "os_call w = (case os_results w of
       [] \<Rightarrow> (None, w)
     | r # rs \<Rightarrow> (r, w\<lparr>os_results := rs\<rparr>))"

text \<open>
  The methods of \<^verbatim>\<open>*os.File\<close>, by the contract of package os: \<^verbatim>\<open>Close\<close> makes the
  file unusable for I/O whatever it returns, and fails when it has been called before;
  \<^verbatim>\<open>Write\<close> fails with \<^verbatim>\<open>ErrInvalid\<close> on a nil receiver and with \<^verbatim>\<open>ErrClosed\<close> on a
  closed file, in both cases before anything reaches the operating system.
\<close>

definition File_Close :: "os_File \<Rightarrow> world \<Rightarrow> string option \<times> os_File \<times> world" where
  "File_Close f w =
     (if f_closed f then (Some (''close '' @ f_name f @ '': file already closed''), f, w)
      else (let (r, w') = os_call w in (r, f\<lparr>f_closed := True\<rparr>, w')))"

definition File_Write :: "os_File option \<Rightarrow> world \<Rightarrow> string option \<times> world" where
  "File_Write fo w = (case fo of
       None \<Rightarrow> (Some ''invalid argument'', w)
     | Some f \<Rightarrow>
         if f_closed f then (Some (''write '' @ f_name f @ '': file already closed''), w)
         else os_call w)"

subsection \<open>The dispatch worker\<close>

text \<open>
  The state of the worker's goroutine: the logger, the world, and the local variable
  \<^verbatim>\<open>oldDate\<close>. Its control state: inside the loop, returned from \<^verbatim>\<open>daemon\<close>, blocked
  for ever in a send on the queue that only itself receives from, or ended by a panic.
\<close>

record dstate =
  lg :: Log
  wd :: world
  oldDate :: int

datatype status = Running | Stopped | Deadlocked | Crashed

definition of_result :: "result \<Rightarrow> status" where
  "of_result r = (case r of Returned \<Rightarrow> Running | Blocked \<Rightarrow> Deadlocked | Panicked \<Rightarrow> Crashed)"

text \<open>
  Sequencing inside one turn of the loop: the next statements run only while the worker
  is still inside the loop.
\<close>

definition andThen ::
  "status \<times> dstate \<times> event list \<Rightarrow> (dstate \<Rightarrow> status \<times> dstate \<times> event list)
     \<Rightarrow> status \<times> dstate \<times> event list" where
  "andThen r f = (case r of
       (Running, d, ev) \<Rightarrow> (case f d of (s, d', ev') \<Rightarrow> (s, d', ev @ ev'))
     | _ \<Rightarrow> r)"

text \<open>\<^verbatim>\<open>l.ERR(err, prompt)\<close> called by the function \<open>callers\<close> starts with.\<close>

definition report :: "dstate \<Rightarrow> frame list \<Rightarrow> string \<Rightarrow> string \<Rightarrow> result \<times> dstate \<times> event list" where
  "report d callers err prompt =
     (case ERR (lg d) (callers @ goroutine_base (wd d)) (ErrorValue err) prompt None of
        (r, l', ev) \<Rightarrow> (r, d\<lparr>lg := l'\<rparr>, ev))"

text \<open>\<^verbatim>\<open>l.ERR(err, prompt); return\<close> at line \<open>n\<close> of \<^verbatim>\<open>daemon\<close>.\<close>

definition report_return :: "dstate \<Rightarrow> int \<Rightarrow> string \<Rightarrow> string \<Rightarrow> status \<times> dstate \<times> event list" where
  "report_return d n err prompt =
     (case report d [method_frame ''daemon'' n] err prompt of
        (Returned, d', ev) \<Rightarrow> (Stopped, d', ev)
      | (r, d', ev) \<Rightarrow> (of_result r, d', ev))"

definition open_flags :: "open_flag list" where
  "open_flags = [O_APPEND, O_CREATE, O_WRONLY]"

text \<open>The octal literal \<^verbatim>\<open>0600\<close>: read and write for the owner, nothing for the others.\<close>

definition perm_0600 :: int where
  "perm_0600 = 6 * 8 * 8 + 0 * 8 + 0"

text \<open>
  \<^verbatim>\<open>newFile\<close>, called from line \<open>at\<close> of \<^verbatim>\<open>daemon\<close>. Its two returns after an error
  leave \<^verbatim>\<open>newFile\<close> only; the loop goes on.
\<close>

definition newFile_open :: "dstate \<Rightarrow> int \<Rightarrow> result \<times> dstate \<times> event list" where
  "newFile_open d at =
     (let (t, w1) = time_Now (wd d);
          fileName = filepath_Base (args0 w1) @ ''_'' @ Format_date t @ ''.log'';
          (r, w2) = os_call w1;
          d2 = d\<lparr>wd := w2\<rparr>;
          ev = [OpenFile fileName open_flags perm_0600 r]
      in case r of
           Some err \<Rightarrow>
             (case report d2 [method_frame ''newFile'' 84, method_frame ''daemon'' at] err
                     ''Error creating logfile'' of
                (res, d3, ev') \<Rightarrow> (res, d3, ev @ ev'))
         | None \<Rightarrow>
             (Returned,
              d2\<lparr>lg := (lg d2)\<lparr>fileWriter := Some \<lparr>f_name = fileName, f_closed = False\<rparr>\<rparr>\<rparr>,
              ev))"

definition newFile :: "dstate \<Rightarrow> int \<Rightarrow> result \<times> dstate \<times> event list" where
  "newFile d at = (case fileWriter (lg d) of
       None \<Rightarrow> newFile_open d at
     | Some f \<Rightarrow>
         (let (r, f', w1) = File_Close f (wd d);
              d1 = d\<lparr>lg := (lg d)\<lparr>fileWriter := Some f'\<rparr>, wd := w1\<rparr>;
              ev = [FileClose (f_name f) r]
          in case r of
               Some err \<Rightarrow>
                 (case report d1 [method_frame ''newFile'' 76, method_frame ''daemon'' at] err
                         ''Error closing logfile'' of
                    (res, d2, ev') \<Rightarrow> (res, d2, ev @ ev'))
             | None \<Rightarrow>
                 (case newFile_open d1 at of (res, d2, ev') \<Rightarrow> (res, d2, ev @ ev'))))"

text \<open>Lines 33 to 35. What \<^verbatim>\<open>fmt.Print\<close> returns is dropped.\<close>

definition stdout_part :: "dstate \<Rightarrow> string \<Rightarrow> status \<times> dstate \<times> event list" where
  "stdout_part d messageWithTimestamp =
     (if SendToStdout (lg d)
      then (let (r, w') = os_call (wd d)
            in (Running, d\<lparr>wd := w'\<rparr>, [Print messageWithTimestamp r]))
      else (Running, d, []))"

text \<open>Lines 38 to 45.\<close>

definition syslog_connect :: "dstate \<Rightarrow> status \<times> dstate \<times> event list" where
  "syslog_connect d =
     (if syslogWriter (lg d) = None
      then (let (r, w') = os_call (wd d);
                d1 = d\<lparr>wd := w'\<rparr>;
                ev = [SyslogNew LOG_INFO (SyslogTag (lg d)) r]
            in case r of
                 Some err \<Rightarrow>
                   (case report_return d1 41 err ''Error creating syslog'' of
                      (s, d2, ev') \<Rightarrow> (s, d2, ev @ ev'))
               | None \<Rightarrow>
                   (Running,
                    d1\<lparr>lg := (lg d1)\<lparr>syslogWriter := Some \<lparr>sw_tag = SyslogTag (lg d)\<rparr>\<rparr>\<rparr>,
                    ev))
      else (Running, d, []))"

text \<open>Lines 46 to 50.\<close>

definition syslog_write :: "string \<Rightarrow> dstate \<Rightarrow> status \<times> dstate \<times> event list" where
  "syslog_write message d =
     (let (r, w') = os_call (wd d);
          d1 = d\<lparr>wd := w'\<rparr>;
          ev = [SyslogWrite message r]
      in case r of
           Some err \<Rightarrow>
             (case report_return d1 48 err ''Error writing to syslog'' of
                (s, d2, ev') \<Rightarrow> (s, d2, ev @ ev'))
         | None \<Rightarrow> (Running, d1, ev))"

definition syslog_part :: "string \<Rightarrow> dstate \<Rightarrow> status \<times> dstate \<times> event list" where
  "syslog_part message d =
     (if SendToSyslog (lg d) then andThen (syslog_connect d) (syslog_write message)
      else (Running, d, []))"

text \<open>Lines 54 to 56, lines 57 to 61, lines 63 to 67.\<close>

definition logfile_first :: "dstate \<Rightarrow> status \<times> dstate \<times> event list" where
  "logfile_first d =
     (if fileWriter (lg d) = None
      then (case newFile d 55 of (r, d', ev) \<Rightarrow> (of_result r, d', ev))
      else (Running, d, []))"

definition logfile_rotate :: "dstate \<Rightarrow> status \<times> dstate \<times> event list" where
  "logfile_rotate d =
     (let (t, w') = time_Now (wd d);
          newDate = t_day t;
          d1 = d\<lparr>wd := w'\<rparr>
      in if newDate \<noteq> oldDate d1
         then (case newFile d1 59 of
                 (Returned, d2, ev) \<Rightarrow> (Running, d2\<lparr>oldDate := newDate\<rparr>, ev)
               | (r, d2, ev) \<Rightarrow> (of_result r, d2, ev))
         else (Running, d1, []))"

definition logfile_write :: "string \<Rightarrow> dstate \<Rightarrow> status \<times> dstate \<times> event list" where
  "logfile_write messageWithTimestamp d =
     (let (r, w') = File_Write (fileWriter (lg d)) (wd d);
          d1 = d\<lparr>wd := w'\<rparr>;
          ev = [FileWrite (map_option f_name (fileWriter (lg d))) messageWithTimestamp r]
      in case r of
           Some err \<Rightarrow>
             (case report_return d1 65 err ''Error writing to logfile'' of
                (s, d2, ev') \<Rightarrow> (s, d2, ev @ ev'))
         | None \<Rightarrow> (Running, d1, ev))"

definition logfile_part :: "string \<Rightarrow> dstate \<Rightarrow> status \<times> dstate \<times> event list" where
  "logfile_part messageWithTimestamp d =
     (if SendToLogfile (lg d)
      then andThen (andThen (logfile_first d) logfile_rotate) (logfile_write messageWithTimestamp)
      else (Running, d, []))"

text \<open>One turn of the loop, lines 30 to 68, for a message already received.\<close>

definition daemon_iter :: "dstate \<Rightarrow> string \<Rightarrow> status \<times> dstate \<times> event list" where
  "daemon_iter d message =
     (let (t, w') = time_Now (wd d);
          messageWithTimestamp = Format_stamp t @ message
      in andThen (andThen (stdout_part (d\<lparr>wd := w'\<rparr>) messageWithTimestamp)
                    (syslog_part message))
           (logfile_part messageWithTimestamp))"

text \<open>Lines 26 and 27: what \<^verbatim>\<open>daemon\<close> does before the loop.\<close>

definition daemon_start :: "dstate \<Rightarrow> dstate" where
  "daemon_start d = (let (t, w') = time_Now (wd d) in d\<lparr>wd := w', oldDate := t_day t\<rparr>)"

subsection \<open>The worker among the producers\<close>

text \<open>
  The worker's goroutine with its control state and everything it has done so far. A turn
  of the worker receives the oldest pending message and runs the loop body on it; with
  an empty queue the worker stays parked in the receive, and a worker that has left the
  loop does nothing any more. A producer's send appends to the queue when there is room
  and stays blocked otherwise.
\<close>

record sys =
  w_status :: status
  w_state :: dstate
  w_trace :: "event list"

definition set_buf :: "dstate \<Rightarrow> string list \<Rightarrow> dstate" where
  "set_buf d q = d\<lparr>lg := (lg d)\<lparr>logChan := (logChan (lg d))\<lparr>buf := q\<rparr>\<rparr>\<rparr>"

definition worker_turn :: "sys \<Rightarrow> sys" where
  "worker_turn s =
     (if w_status s \<noteq> Running then s
      else (case buf (logChan (lg (w_state s))) of
              [] \<Rightarrow> s
            | message # rest \<Rightarrow>
                (case daemon_iter (set_buf (w_state s) rest) message of
                   (c, d', ev) \<Rightarrow> \<lparr>w_status = c, w_state = d', w_trace = w_trace s @ ev\<rparr>)))"

definition producer_send :: "string \<Rightarrow> sys \<Rightarrow> sys" where
  "producer_send x s =
     (let q = logChan (lg (w_state s))
      in if length (buf q) < cap q then s\<lparr>w_state := set_buf (w_state s) (buf q @ [x])\<rparr>
         else s)"

datatype action = Work | Produce string

fun run :: "action list \<Rightarrow> sys \<Rightarrow> sys" where
  "run [] s = s"
| "run (Work # as) s = run as (worker_turn s)"
| "run (Produce x # as) s = run as (producer_send x s)"

subsection \<open>\<^verbatim>\<open>Close\<close>\<close>

text \<open>
  \<^verbatim>\<open>Close\<close> reads the length of the queue, and while what it has read is positive it
  sleeps 100 milliseconds and reads again. The queue is emptied by the worker meanwhile:
  \<open>later k\<close> is the length read after the sleep number \<open>k\<close> (from 0). The loop need
  not end; the result is the events of the call when it does.
\<close>

partial_function (option) Close_loop :: "(nat \<Rightarrow> nat) \<Rightarrow> nat \<Rightarrow> nat \<Rightarrow> event list \<Rightarrow> event list option" where
  "Close_loop later k lenLogChan ev =
     (if lenLogChan > 0 then Close_loop later (Suc k) (later k) (ev @ [Sleep 100])
      else Some ev)"

definition Close :: "Log \<Rightarrow> (nat \<Rightarrow> nat) \<Rightarrow> (Log \<times> event list) option" where
  "Close l later =
     map_option (\<lambda>ev. (l, ev)) (Close_loop later 0 (length (buf (logChan l))) [])"

subsection \<open>\<^verbatim>\<open>init\<close>\<close>

text \<open>
  \<^verbatim>\<open>init\<close> builds the logger \<^verbatim>\<open>L\<close> and starts one goroutine with a \<^verbatim>\<open>go\<close> statement: the
  result is the logger and the goroutines started.
\<close>

datatype goroutine = Go_daemon

definition init :: "Log \<times> goroutine list" where
  "init =
     (\<lparr>logChan = \<lparr>buf = [], cap = 1000\<rparr>,
       syslogWriter = None,
       fileWriter = None,
       SyslogTag = ''GOLOGGER'',
       Priority = LOG_DEBUG,
       SendToStdout = True,
       SendToSyslog = False,
       SendToLogfile = False\<rparr>,
      [Go_daemon])"

text \<open>The worker as \<^verbatim>\<open>init\<close> leaves it, once \<^verbatim>\<open>daemon\<close> has reached its loop.\<close>

definition boot :: "world \<Rightarrow> sys" where
  "boot w =
     \<lparr>w_status = Running,
      w_state = daemon_start \<lparr>lg = fst init, wd = w, oldDate = 0\<rparr>,
      w_trace = []\<rparr>"

subsection \<open>Reading a trace\<close>

text \<open>
  The three failures after which \<^verbatim>\<open>daemon\<close> itself reports and returns, with the error,
  the prompt and the line of the report.
\<close>

fun fatal :: "event \<Rightarrow> (string \<times> string \<times> int) option" where
  "fatal (SyslogNew p t (Some err)) = Some (err, ''Error creating syslog'', 41)"
| "fatal (SyslogWrite x (Some err)) = Some (err, ''Error writing to syslog'', 48)"
| "fatal (FileWrite f x (Some err)) = Some (err, ''Error writing to logfile'', 65)"
| "fatal _ = None"

text \<open>The first such failure of a trace, and the events after it.\<close>

fun after_fatal :: "event list \<Rightarrow> ((string \<times> string \<times> int) \<times> event list) option" where
  "after_fatal [] = None"
| "after_fatal (e # es) = (case fatal e of Some x \<Rightarrow> Some (x, es) | None \<Rightarrow> after_fatal es)"

text \<open>The line that \<^verbatim>\<open>ERR\<close> enqueues for an error reported by function \<open>f\<close> at line \<open>n\<close>.\<close>

definition report_line :: "string \<Rightarrow> int \<Rightarrow> string \<Rightarrow> string \<Rightarrow> string" where
  "report_line f n prompt err = log_line (CHR ''E'') f n (prompt @ '' err{'' @ err @ ''}'')"

text \<open>A call of a sink other than the console that returned an error.\<close>

fun sink_failed :: "event \<Rightarrow> bool" where
  "sink_failed (SyslogNew p t (Some err)) = True"
| "sink_failed (SyslogWrite x (Some err)) = True"
| "sink_failed (FileClose f (Some err)) = True"
| "sink_failed (OpenFile f fl pm (Some err)) = True"
| "sink_failed (FileWrite f x (Some err)) = True"
| "sink_failed _ = False"

text \<open>A call of any sink.\<close>

fun sink_call :: "event \<Rightarrow> bool" where
  "sink_call (Sprintf x) = False"
| "sink_call (Caller k) = False"
| "sink_call (Send x) = False"
| "sink_call (Sleep k) = False"
| "sink_call _ = True"

text \<open>
  What a turn of the loop looks like after the first of these failures \<open>x\<close>, when \<open>c\<close>
  is the control state at the end of the turn, \<open>l\<close> the logger then, and \<open>post\<close> the
  events after the failure: the one call of \<^verbatim>\<open>ERR\<close> was filtered out by the threshold and
  \<^verbatim>\<open>daemon\<close> returned; or it put its line on the queue and \<^verbatim>\<open>daemon\<close> returned; or the
  queue was full, and the worker is blocked in the send.
\<close>

definition reported :: "status \<Rightarrow> Log \<Rightarrow> string \<times> string \<times> int \<Rightarrow> event list \<Rightarrow> bool" where
  "reported c l x post = (case x of (err, prompt, n) \<Rightarrow>
       (Priority l < LOG_ERR \<and> c = Stopped \<and> post = [])
     \<or> (LOG_ERR \<le> Priority l \<and> c = Stopped
          \<and> post = [Caller 2, Send (report_line ''Log.daemon'' n prompt err)]
          \<and> buf (logChan l) \<noteq> []
          \<and> last (buf (logChan l)) = report_line ''Log.daemon'' n prompt err)
     \<or> (LOG_ERR \<le> Priority l \<and> c = Deadlocked \<and> post = [Caller 2]
          \<and> cap (logChan l) \<le> length (buf (logChan l))))"

text \<open>The shape of the result of a turn, or of a part of a turn.\<close>

definition turn_ok :: "status \<times> dstate \<times> event list \<Rightarrow> bool" where
  "turn_ok r = (case r of (c, d', ev) \<Rightarrow>
       (case after_fatal ev of
          Some (x, post) \<Rightarrow> reported c (lg d') x post
        | None \<Rightarrow> c = Running \<or> c = Deadlocked)
     \<and> (c = Running \<or> list_ex sink_failed ev))"

text \<open>
  The data of a write to a sink is right: the console and the file get the line with the
  timestamp \<open>mts\<close>, syslog gets the line \<open>m\<close> as it was enqueued.
\<close>

fun carries :: "string \<Rightarrow> string \<Rightarrow> event \<Rightarrow> bool" where
  "carries mts m (Print x r) = (x = mts)"
| "carries mts m (FileWrite f x r) = (x = mts)"
| "carries mts m (SyslogWrite x r) = (x = m)"
| "carries mts m _ = True"

text \<open>Decimal digits, and the readings that \<^verbatim>\<open>time.Now\<close> can give for the time of day.\<close>

definition digits :: "string \<Rightarrow> bool" where
  "digits s = list_all (\<lambda>c. 48 \<le> (of_char c :: nat) \<and> (of_char c :: nat) \<le> 57) s"

definition valid_clock :: "Time \<Rightarrow> bool" where
  "valid_clock t =
     (0 \<le> t_hour t \<and> t_hour t < 24 \<and> 0 \<le> t_minute t \<and> t_minute t < 60
      \<and> 0 \<le> t_second t \<and> t_second t < 60 \<and> 0 \<le> t_nsec t \<and> t_nsec t < 1000000000)"

subsection \<open>Concrete inputs\<close>

text \<open>A method with a pointer receiver called from \<^verbatim>\<open>main\<close>: the callers of a facade call.\<close>

definition example_callers :: "frame list" where
  "example_callers = [\<lparr>fn_name = ''main.(*Test).exampleFunc'', fn_line = 12\<rparr>, \<lparr>fn_name = ''main.main'', fn_line = 30\<rparr>]"

text \<open>
  A reading of the clock (15 February 2024, 09:05:07.123456789), a line as \<^verbatim>\<open>Log\<close> builds
  it, and a world in which the clock stands at that reading.
\<close>

definition feb15 :: Time where
  "feb15 = \<lparr>t_year = 2024, t_month = 2, t_day = 15, t_hour = 9, t_minute = 5, t_second = 7,
     t_nsec = 123456789\<rparr>"

definition example_line :: string where
  "example_line = log_line (CHR ''I'') ''main.main'' 10 ''hello''"

definition world_at :: "Time \<Rightarrow> string option list \<Rightarrow> world" where
  "world_at t rs =
     \<lparr>clock = t, ticks = [], os_results = rs, args0 = ''/usr/bin/app'', goroutine_base = []\<rparr>"

text \<open>
  The logger of \<^verbatim>\<open>init\<close> with the syslog sink enabled as well and already connected, the
  messages \<open>q\<close> pending; the console write will succeed and the syslog write will fail.
\<close>

definition failing_syslog_state :: "string list \<Rightarrow> dstate" where
  "failing_syslog_state q =
     \<lparr>lg = (fst init)\<lparr>logChan := \<lparr>buf = q, cap = 1000\<rparr>, SendToSyslog := True,
             syslogWriter := Some \<lparr>sw_tag = ''GOLOGGER''\<rparr>\<rparr>,
      wd = world_at feb15 [None, Some ''EIO''],
      oldDate = 15\<rparr>"

text \<open>The logger of \<^verbatim>\<open>init\<close> with all three sinks enabled, in a world without failures.\<close>

definition all_sinks_state :: dstate where
  "all_sinks_state =
     \<lparr>lg = (fst init)\<lparr>SendToSyslog := True, SendToLogfile := True\<rparr>,
      wd = world_at feb15 [],
      oldDate = 15\<rparr>"

text \<open>The logger of \<^verbatim>\<open>init\<close> with one message pending.\<close>

definition busy_logger :: Log where
  "busy_logger = (fst init)\<lparr>logChan := \<lparr>buf = [''|I|main.main():3 hi''], cap = 1000\<rparr>\<rparr>"

section \<open>The facade\<close>

text \<open>
  Claim C1. A call of \<^verbatim>\<open>ERR\<close>, \<^verbatim>\<open>WRN\<close>, \<^verbatim>\<open>INF\<close> or \<^verbatim>\<open>DBG\<close> whose severity is below the
  threshold (the \<^verbatim>\<open>Priority\<close> field is less than \<^verbatim>\<open>LOG_ERR\<close>, \<^verbatim>\<open>LOG_WARNING\<close>,
  \<^verbatim>\<open>LOG_INFO\<close>, \<^verbatim>\<open>LOG_DEBUG\<close> respectively) returns at once: the prompt is not formatted,
  the caller is not looked up, nothing is put on the queue (the call has no events), and
  the logger is unchanged.
\<close>

theorem below_threshold_no_effect:
  "(Priority l < LOG_ERR \<longrightarrow> ERR l callers e prompt v = (Returned, l, []))
   \<and> (Priority l < LOG_WARNING \<longrightarrow> WRN l callers prompt v = (Returned, l, []))
   \<and> (Priority l < LOG_INFO \<longrightarrow> INF_call l callers prompt v = (Returned, l, []))
   \<and> (Priority l < LOG_DEBUG \<longrightarrow> DBG l callers prompt v = (Returned, l, []))"
  by (simp add: ERR_def WRN_def INF_call_def DBG_def)

theorem below_threshold_no_effect_witness:
  "Priority ((fst init)\<lparr>Priority := 2\<rparr>) < LOG_ERR
   \<and> Priority ((fst init)\<lparr>Priority := 2\<rparr>) < LOG_WARNING
   \<and> Priority ((fst init)\<lparr>Priority := 2\<rparr>) < LOG_INFO
   \<and> Priority ((fst init)\<lparr>Priority := 2\<rparr>) < LOG_DEBUG
   \<and> ERR ((fst init)\<lparr>Priority := 2\<rparr>) [] (IntValue 5) ''p %d'' (Some (\<lambda>f. ''p 1''))
       = (Returned, (fst init)\<lparr>Priority := 2\<rparr>, [])
   \<and> WRN ((fst init)\<lparr>Priority := 2\<rparr>) [] ''p %d'' (Some (\<lambda>f. ''p 1''))
       = (Returned, (fst init)\<lparr>Priority := 2\<rparr>, [])
   \<and> INF_call ((fst init)\<lparr>Priority := 2\<rparr>) [] ''p %d'' (Some (\<lambda>f. ''p 1''))
       = (Returned, (fst init)\<lparr>Priority := 2\<rparr>, [])
   \<and> DBG ((fst init)\<lparr>Priority := 2\<rparr>) [] ''p %d'' (Some (\<lambda>f. ''p 1''))
       = (Returned, (fst init)\<lparr>Priority := 2\<rparr>, [])"
  using below_threshold_no_effect
          [of "(fst init)\<lparr>Priority := 2\<rparr>" "[]" "IntValue 5" "''p %d''" "Some (\<lambda>f. ''p 1'')"]
  by (simp add: init_def LOG_ERR_def LOG_WARNING_def LOG_INFO_def LOG_DEBUG_def)

text \<open>
  On claim C3. For an error, a string, a byte and a value of another type the text is as
  the claim gives it.
\<close>

lemma anyErrToString_cases:
  "anyErrToString (ErrorValue m) p = Inr (p @ '' err{'' @ m @ ''}'')"
  "anyErrToString (StringValue x) p = Inr (p @ '' err{'' @ x @ ''}'')"
  "anyErrToString (ByteValue b) p = Inr (p @ '' RC:'' @ zpad 2 (show_nat (uint b)))"
  "anyErrToString (OtherValue x) p = Inr (p @ '' ???{type('' @ x @ '')='' @ x @ ''}'')"
  "anyErrToString NilValue p = Inr (p @ '' ???{type(<nil>)=<nil>}'')"
  by (simp_all add: anyErrToString_def fmt_v_def)

text \<open>
  Claim C3 says that a byte or int code gives \<^verbatim>\<open><p> RC:NN\<close>. For the int code 5 and the
  prompt \<^verbatim>\<open>rc\<close> that would be \<^verbatim>\<open>rc RC:05\<close>, as the byte 5 gives it; but the type
  assertion to byte panics on an int, and so does the call of \<^verbatim>\<open>ERR\<close> around it.
\<close>

theorem anyErrToString_int_panics:
  "anyErrToString (IntValue 5) ''rc'' = Inl InterfaceConversion
   \<and> anyErrToString (ByteValue 5) ''rc'' = Inr ''rc RC:05''
   \<and> ERR (fst init) [] (IntValue 5) ''rc'' None = (Panicked, fst init, [])"
proof -
  have "anyErrToString (ByteValue 5) ''rc'' = Inr ''rc RC:05''"
    by code_simp
  then show ?thesis
    by (simp add: ERR_def init_def LOG_ERR_def LOG_DEBUG_def format_prompt_def anyErrToString_def)
qed

section \<open>Initialisation\<close>

text \<open>
  Claim C8. The singleton built by \<^verbatim>\<open>init\<close> has a queue of capacity exactly 1000 (and
  empty), console output enabled, syslog and file output disabled, the threshold at
  \<^verbatim>\<open>LOG_DEBUG\<close>, the most verbose level (none of the four facade calls is filtered out),
  and the syslog tag \<^verbatim>\<open>GOLOGGER\<close>; and \<^verbatim>\<open>init\<close> starts the worker: the one goroutine
  it starts is \<^verbatim>\<open>daemon\<close>, which is then in its loop.
\<close>

theorem init_defaults:
  "logChan (fst init) = \<lparr>buf = [], cap = 1000\<rparr>
   \<and> SendToStdout (fst init) = True
   \<and> SendToSyslog (fst init) = False
   \<and> SendToLogfile (fst init) = False
   \<and> Priority (fst init) = LOG_DEBUG
   \<and> LOG_ERR \<le> Priority (fst init) \<and> LOG_WARNING \<le> Priority (fst init)
   \<and> LOG_INFO \<le> Priority (fst init) \<and> LOG_DEBUG \<le> Priority (fst init)
   \<and> SyslogTag (fst init) = ''GOLOGGER''
   \<and> syslogWriter (fst init) = None \<and> fileWriter (fst init) = None
   \<and> snd init = [Go_daemon]
   \<and> w_status (boot w) = Running \<and> lg (w_state (boot w)) = fst init"
  by (simp add: init_def LOG_DEBUG_def LOG_ERR_def LOG_WARNING_def LOG_INFO_def boot_def
      daemon_start_def split_def Let_def)

section \<open>Caller resolution\<close>

text \<open>
  What the pattern matches. A name that ends in \<^verbatim>\<open>(*T).M\<close>, with \<open>T\<close> from the first
  class and \<open>M\<close> from the second, has one match only, whatever stands before it; a name
  without \<^verbatim>\<open>*\<close> has none.
\<close>

lemma class1_not: "\<not> class1 (CHR ''*'')" "\<not> class1 (CHR '')'')" "\<not> class1 (CHR ''('')" "\<not> class1 (CHR ''.'')"
  by (simp_all add: class1_def)

lemma class2_not: "\<not> class2 (CHR ''*'')" "\<not> class2 (CHR ''.'')"
  by (simp_all add: class2_def)

lemma last_occurrence:
  assumes "xs @ a # ys = xs' @ a # ys'" and "a \<notin> set ys" and "a \<notin> set ys'"
  shows "xs = xs' \<and> ys = ys'"
proof -
  have "takeWhile (\<lambda>c. c \<noteq> a) (rev (xs @ a # ys)) = rev ys"
    using assms(2) by (auto simp: takeWhile_tail)
  moreover have "takeWhile (\<lambda>c. c \<noteq> a) (rev (xs' @ a # ys')) = rev ys'"
    using assms(3) by (auto simp: takeWhile_tail)
  ultimately have "ys = ys'" using assms(1) by (metis rev_is_rev_conv)
  with assms(1) show ?thesis by simp
qed

lemma match_here_hit:
  assumes "T \<noteq> []" "list_all class1 T" "M \<noteq> []" "list_all class2 M"
  shows "match_here (CHR ''('' # CHR ''*'' # T @ CHR '')'' # CHR ''.'' # M) = Some (T, M)"
proof -
  have t: "takeWhile class1 (T @ CHR '')'' # CHR ''.'' # M) = T"
    using assms(2) by (simp add: takeWhile_append2 list_all_iff class1_not)
  have d: "dropWhile class1 (T @ CHR '')'' # CHR ''.'' # M) = CHR '')'' # CHR ''.'' # M"
    using assms(2) by (simp add: dropWhile_append2 list_all_iff class1_not)
  show ?thesis using assms(1,3,4) by (simp add: match_here_def t d)
qed

lemma match_here_shape:
  assumes "match_here s = Some (g1, g2)"
  shows "s = CHR ''('' # CHR ''*'' # g1 @ CHR '')'' # CHR ''.'' # g2 \<and> list_all class1 g1 \<and> list_all class2 g2"
proof -
  from assms obtain r where s: "s = CHR ''('' # CHR ''*'' # r"
    by (auto simp: match_here_def split: list.splits if_splits)
  from assms s have g1: "g1 = takeWhile class1 r" and dw: "dropWhile class1 r = CHR '')'' # CHR ''.'' # g2" and c2: "list_all class2 g2"
    by (auto simp: match_here_def Let_def split: list.splits if_splits)
  have "r = takeWhile class1 r @ dropWhile class1 r" by simp
  then have "r = g1 @ CHR '')'' # CHR ''.'' # g2" using g1 dw by simp
  moreover have "list_all class1 g1" unfolding g1 list_all_iff by (metis set_takeWhileD)
  ultimately show ?thesis using s c2 by simp
qed

lemma match_here_miss:
  assumes "list_all class1 T" "list_all class2 M"
  shows "match_here (c # p @ CHR ''('' # CHR ''*'' # T @ CHR '')'' # CHR ''.'' # M) = None"
proof (rule ccontr)
  assume "match_here (c # p @ CHR ''('' # CHR ''*'' # T @ CHR '')'' # CHR ''.'' # M) \<noteq> None"
  then obtain g1 g2 where m: "match_here (c # p @ CHR ''('' # CHR ''*'' # T @ CHR '')'' # CHR ''.'' # M) = Some (g1, g2)"
    by auto
  from match_here_shape[OF m]
  have eq: "c # p @ CHR ''('' # CHR ''*'' # T @ CHR '')'' # CHR ''.'' # M = CHR ''('' # CHR ''*'' # g1 @ CHR '')'' # CHR ''.'' # g2"
    and c1: "list_all class1 g1" and c2: "list_all class2 g2" by auto
  have nd: "CHR ''.'' \<notin> set M" "CHR ''.'' \<notin> set g2"
    using assms(2) c2 class2_not by (auto simp: list_all_iff)
  from eq have "(c # p @ CHR ''('' # CHR ''*'' # T @ [CHR '')'']) @ CHR ''.'' # M = (CHR ''('' # CHR ''*'' # g1 @ [CHR '')'']) @ CHR ''.'' # g2"
    by simp
  from last_occurrence[OF this nd]
  have "c # p @ CHR ''('' # CHR ''*'' # T = CHR ''('' # CHR ''*'' # g1" by simp
  then have e2: "(c # p @ [CHR ''('']) @ CHR ''*'' # T = [CHR ''(''] @ CHR ''*'' # g1" by simp
  have ns: "CHR ''*'' \<notin> set T" "CHR ''*'' \<notin> set g1"
    using assms(1) c1 class1_not by (auto simp: list_all_iff)
  from last_occurrence[OF e2 ns] show False by simp
qed

lemma FindStringSubmatch_method:
  assumes "T \<noteq> []" "list_all class1 T" "M \<noteq> []" "list_all class2 M"
  shows "FindStringSubmatch (p @ CHR ''('' # CHR ''*'' # T @ CHR '')'' # CHR ''.'' # M)
       = Some [CHR ''('' # CHR ''*'' # T @ CHR '')'' # CHR ''.'' # M, T, M]"
proof (induction p)
  case Nil
  show ?case using match_here_hit[OF assms] by simp
next
  case (Cons c p)
  show ?case using match_here_miss[OF assms(2,4), of c p] Cons.IH by simp
qed

lemma FindStringSubmatch_plain:
  "CHR ''*'' \<notin> set s \<Longrightarrow> FindStringSubmatch s = None"
proof (induction s)
  case Nil
  show ?case by simp
next
  case (Cons c s)
  then have "match_here (c # s) = None"
    by (auto simp: match_here_def split: list.splits)
  with Cons show ?case by simp
qed

lemma funcName_of_method:
  assumes "T \<noteq> []" "list_all class1 T" "M \<noteq> []" "list_all class2 M"
  shows "funcName_of (p @ ''(*'' @ T @ '').'' @ M) = T @ ''.'' @ M"
  using FindStringSubmatch_method[OF assms, of p] by (simp add: funcName_of_def)

lemma funcName_of_plain: "CHR ''*'' \<notin> set s \<Longrightarrow> funcName_of s = s"
  by (simp add: funcName_of_def FindStringSubmatch_plain)


lemma caller_info_skip:
  "caller_info (f0 # f1 # callers) (Suc (Suc depth)) =
     (if depth < length callers
      then (funcName_of (fn_name (callers ! depth)), fn_line (callers ! depth))
      else (''<nf>'', 0))"
  by (simp add: caller_info_def runtime_Caller_def)

lemma Log_room:
  "length (buf (logChan l)) < cap (logChan l) \<Longrightarrow>
   Log l (f # callers) depth c msg =
     (let (name, line) = (if depth < length callers
            then (funcName_of (fn_name (callers ! depth)), fn_line (callers ! depth))
            else (''<nf>'', 0));
          s = log_line c name line msg
      in (Returned, l\<lparr>logChan := (logChan l)\<lparr>buf := buf (logChan l) @ [s]\<rparr>\<rparr>, [Caller (2 + depth), Send s]))"
  by (simp add: Log_def caller_info_skip Let_def)

text \<open>
  Claim C7. In a call that reaches \<^verbatim>\<open>Log\<close> (with room in the queue, so that the send
  completes), \<^verbatim>\<open>runtime.Caller\<close> skips two frames, that of \<^verbatim>\<open>Log\<close> and that of the
  function that called it, and \<open>depth\<close> more: the frame reported is number \<open>depth\<close> of
  the callers. When the stack is too short for that, the name is \<^verbatim>\<open><nf>\<close> (and the line 0).
  The four facade functions pass the depth 0 and so report their own caller. A name
  ending in \<^verbatim>\<open>(*T).M\<close> that the pattern matches becomes \<^verbatim>\<open>T.M\<close>; a plain function name
  (no \<^verbatim>\<open>*\<close> in it) is kept as it is.
\<close>

theorem caller_resolution:
  assumes "length (buf (logChan l)) < cap (logChan l)"
  shows "(depth < length callers \<longrightarrow>
            snd (snd (Log l (f # callers) depth c msg)) =
              [Caller (2 + depth),
               Send (log_line c (funcName_of (fn_name (callers ! depth))) (fn_line (callers ! depth)) msg)])
       \<and> (length callers \<le> depth \<longrightarrow>
            snd (snd (Log l (f # callers) depth c msg)) =
              [Caller (2 + depth), Send (log_line c ''<nf>'' 0 msg)])
       \<and> (callers \<noteq> [] \<and> LOG_ERR \<le> Priority l \<longrightarrow>
            snd (snd (ERR l callers (StringValue x) msg None)) =
              [Caller 2, Send (log_line (CHR ''E'') (funcName_of (fn_name (hd callers)))
                 (fn_line (hd callers)) (msg @ '' err{'' @ x @ ''}''))])
       \<and> (callers \<noteq> [] \<and> LOG_WARNING \<le> Priority l \<longrightarrow>
            snd (snd (WRN l callers msg None)) =
              [Caller 2, Send (log_line (CHR ''W'') (funcName_of (fn_name (hd callers)))
                 (fn_line (hd callers)) msg)])
       \<and> (callers \<noteq> [] \<and> LOG_INFO \<le> Priority l \<longrightarrow>
            snd (snd (INF_call l callers msg None)) =
              [Caller 2, Send (log_line (CHR ''I'') (funcName_of (fn_name (hd callers)))
                 (fn_line (hd callers)) msg)])
       \<and> (callers \<noteq> [] \<and> LOG_DEBUG \<le> Priority l \<longrightarrow>
            snd (snd (DBG l callers msg None)) =
              [Caller 2, Send (log_line (CHR ''D'') (funcName_of (fn_name (hd callers)))
                 (fn_line (hd callers)) msg)])
       \<and> (T \<noteq> [] \<and> list_all class1 T \<and> M \<noteq> [] \<and> list_all class2 M \<longrightarrow>
            funcName_of (p @ ''(*'' @ T @ '').'' @ M) = T @ ''.'' @ M)
       \<and> (CHR ''*'' \<notin> set name \<longrightarrow> funcName_of name = name)"
proof -
  have hd0: "callers \<noteq> [] \<Longrightarrow> callers ! 0 = hd callers"
    by (simp add: hd_conv_nth)
  have a: "depth < length callers \<longrightarrow>
            snd (snd (Log l (f # callers) depth c msg)) =
              [Caller (2 + depth),
               Send (log_line c (funcName_of (fn_name (callers ! depth))) (fn_line (callers ! depth)) msg)]"
    using assms by (simp add: Log_room Let_def)
  have b: "length callers \<le> depth \<longrightarrow>
            snd (snd (Log l (f # callers) depth c msg)) =
              [Caller (2 + depth), Send (log_line c ''<nf>'' 0 msg)]"
    using assms by (simp add: Log_room Let_def)
  have e: "callers \<noteq> [] \<and> LOG_ERR \<le> Priority l \<longrightarrow>
            snd (snd (ERR l callers (StringValue x) msg None)) =
              [Caller 2, Send (log_line (CHR ''E'') (funcName_of (fn_name (hd callers)))
                 (fn_line (hd callers)) (msg @ '' err{'' @ x @ ''}''))]"
    using assms Log_room[where l=l and callers=callers and f="method_frame ''ERR'' 138" and depth=0]
    by (simp add: ERR_def format_prompt_def anyErrToString_def hd0 Let_def)
  have w: "callers \<noteq> [] \<and> LOG_WARNING \<le> Priority l \<longrightarrow>
            snd (snd (WRN l callers msg None)) =
              [Caller 2, Send (log_line (CHR ''W'') (funcName_of (fn_name (hd callers)))
                 (fn_line (hd callers)) msg)]"
    using assms Log_room[where l=l and callers=callers and f="method_frame ''WRN'' 148" and depth=0]
    by (simp add: WRN_def format_prompt_def hd0 Let_def)
  have i: "callers \<noteq> [] \<and> LOG_INFO \<le> Priority l \<longrightarrow>
            snd (snd (INF_call l callers msg None)) =
              [Caller 2, Send (log_line (CHR ''I'') (funcName_of (fn_name (hd callers)))
                 (fn_line (hd callers)) msg)]"
    using assms Log_room[where l=l and callers=callers and f="method_frame ''INF'' 158" and depth=0]
    by (simp add: INF_call_def format_prompt_def hd0 Let_def)
  have d: "callers \<noteq> [] \<and> LOG_DEBUG \<le> Priority l \<longrightarrow>
            snd (snd (DBG l callers msg None)) =
              [Caller 2, Send (log_line (CHR ''D'') (funcName_of (fn_name (hd callers)))
                 (fn_line (hd callers)) msg)]"
    using assms Log_room[where l=l and callers=callers and f="method_frame ''DBG'' 168" and depth=0]
    by (simp add: DBG_def format_prompt_def hd0 Let_def)
  have m: "T \<noteq> [] \<and> list_all class1 T \<and> M \<noteq> [] \<and> list_all class2 M \<longrightarrow>
            funcName_of (p @ ''(*'' @ T @ '').'' @ M) = T @ ''.'' @ M"
    using funcName_of_method by blast
  have n: "CHR ''*'' \<notin> set name \<longrightarrow> funcName_of name = name"
    using funcName_of_plain by blast
  from a b e w i d m n show ?thesis by blast
qed

theorem caller_resolution_witness:
  "length (buf (logChan (fst init))) < cap (logChan (fst init))
   \<and> snd (snd (Log (fst init) (method_frame ''INF'' 158 # example_callers) 1 (CHR ''I'') ''hello''))
       = [Caller 3, Send (log_line (CHR ''I'') ''main.main'' 30 ''hello'')]
   \<and> snd (snd (Log (fst init) (method_frame ''INF'' 158 # example_callers) 2 (CHR ''I'') ''hello''))
       = [Caller 4, Send (log_line (CHR ''I'') ''<nf>'' 0 ''hello'')]
   \<and> snd (snd (INF_call (fst init) example_callers ''hello'' None))
       = [Caller 2, Send (log_line (CHR ''I'') ''Test.exampleFunc'' 12 ''hello'')]
   \<and> funcName_of ''main.(*Test).exampleFunc'' = ''Test.exampleFunc''
   \<and> funcName_of ''main.main'' = ''main.main''"
proof -
  have room: "length (buf (logChan (fst init))) < cap (logChan (fst init))"
    by (simp add: init_def)
  have c: "list_all class1 ''Test''" "list_all class2 ''exampleFunc''"
    by (simp_all add: class1_def class2_def)
  have pr: "LOG_INFO \<le> Priority (fst init)"
    by (simp add: init_def LOG_INFO_def LOG_DEBUG_def)
  note t1 = caller_resolution [OF room, of 1 example_callers "method_frame ''INF'' 158" "CHR ''I''"
      "''hello''" "''boom''" "''Test''" "''exampleFunc''" "''main.''" "''main.main''"]
  note t2 = caller_resolution [OF room, of 2 example_callers "method_frame ''INF'' 158" "CHR ''I''"
      "''hello''" "''boom''" "''Test''" "''exampleFunc''" "''main.''" "''main.main''"]
  from t1 t2 room c pr show ?thesis
    by (simp add: example_callers_def)
qed

text \<open>
  Claim C10. For a pointer-receiver method \<^verbatim>\<open>pk.(*T).M\<close> the name reported is \<^verbatim>\<open>T.M\<close>,
  without the package; for a plain function \<^verbatim>\<open>pk.F\<close> it is the whole \<^verbatim>\<open>pk.F\<close>.
\<close>

theorem method_name_loses_package:
  assumes "T \<noteq> []" "list_all class1 T" "M \<noteq> []" "list_all class2 M"
    and "CHR ''*'' \<notin> set (pk @ ''.'' @ F)"
  shows "caller_info [f0, f1, \<lparr>fn_name = pk @ ''.(*'' @ T @ '').'' @ M, fn_line = n\<rparr>] 2 = (T @ ''.'' @ M, n)
       \<and> caller_info [f0, f1, \<lparr>fn_name = pk @ ''.'' @ F, fn_line = n\<rparr>] 2 = (pk @ ''.'' @ F, n)"
  using funcName_of_method[OF assms(1-4), of "pk @ ''.''"] funcName_of_plain[OF assms(5)]
  by (simp add: caller_info_def runtime_Caller_def)

theorem method_name_loses_package_witness:
  "caller_info [method_frame ''Log'' 107, method_frame ''DBG'' 168, \<lparr>fn_name = ''pkg.(*Type).Method'', fn_line = 7\<rparr>] 2 = (''Type.Method'', 7)
   \<and> caller_info [method_frame ''Log'' 107, method_frame ''DBG'' 168, \<lparr>fn_name = ''pkg.Func'', fn_line = 7\<rparr>] 2 = (''pkg.Func'', 7)"
proof -
  have c: "list_all class1 ''Type''" "list_all class2 ''Method''"
    by (simp_all add: class1_def class2_def)
  have s: "CHR ''*'' \<notin> set (''pkg'' @ ''.'' @ ''Func'')" by simp
  from method_name_loses_package [OF _ c(1) _ c(2) s, of "method_frame ''Log'' 107" "method_frame ''DBG'' 168" 7]
  show ?thesis by simp
qed

section \<open>Draining the queue\<close>

lemma Close_loop_done: "Close_loop later k 0 ev = Some ev"
  by (subst Close_loop.simps) simp

lemma Close_loop_step:
  "0 < n \<Longrightarrow> Close_loop later k n ev = Close_loop later (Suc k) (later k) (ev @ [Sleep 100])"
  by (subst Close_loop.simps) simp

lemma Close_loop_finite:
  "0 < len \<Longrightarrow> (\<forall>j<n. 0 < later (k + j)) \<Longrightarrow> later (k + n) = 0 \<Longrightarrow>
   Close_loop later k len ev = Some (ev @ replicate (Suc n) (Sleep 100))"
proof (induction n arbitrary: k len ev)
  case 0
  then show ?case by (simp add: Close_loop_step Close_loop_done)
next
  case (Suc n)
  have pos: "0 < later k" using Suc.prems(2) by (metis add.right_neutral zero_less_Suc)
  have rest: "\<forall>j<n. 0 < later (Suc k + j)"
    using Suc.prems(2) by (metis Suc_less_eq add_Suc_right add_Suc)
  have z: "later (Suc k + n) = 0" using Suc.prems(3) by simp
  have "Close_loop later k len ev = Close_loop later (Suc k) (later k) (ev @ [Sleep 100])"
    using Suc.prems(1) by (rule Close_loop_step)
  also have "\<dots> = Some ((ev @ [Sleep 100]) @ replicate (Suc n) (Sleep 100))"
    by (rule Suc.IH[OF pos rest z])
  finally show ?case by (simp add: replicate_app_Cons_same)
qed

lemma Close_loop_Some:
  assumes "Close_loop later k len ev = Some y"
  shows "len = 0 \<or> (\<exists>j. later j = 0)"
proof (rule Close_loop.raw_induct
    [where P = "\<lambda>later k len ev y. len = 0 \<or> (\<exists>j. later j = 0)", OF _ assms])
  fix C :: "(nat \<Rightarrow> nat) \<Rightarrow> nat \<Rightarrow> nat \<Rightarrow> event list \<Rightarrow> event list option"
    and later :: "nat \<Rightarrow> nat" and k len :: nat and ev y :: "event list"
  assume IH: "\<And>later k len ev y. C later k len ev = Some y \<Longrightarrow> len = 0 \<or> (\<exists>j. later j = 0)"
    and eq: "(if 0 < len then C later (Suc k) (later k) (ev @ [Sleep 100]) else Some ev) = Some y"
  show "len = 0 \<or> (\<exists>j. later j = 0)"
  proof (cases "0 < len")
    case True
    with eq have "C later (Suc k) (later k) (ev @ [Sleep 100]) = Some y" by simp
    from IH[OF this] show ?thesis by auto
  next
    case False
    then show ?thesis by simp
  qed
qed

text \<open>
  Claim C9. \<^verbatim>\<open>Close\<close> on an empty queue returns without a sleep and without a change of
  the logger. On a queue that is not empty it sleeps 100 milliseconds and reads the
  length again, until it reads 0: if the length read after the sleep number \<open>n\<close> is the
  first that is 0, \<^verbatim>\<open>Close\<close> returns after \<open>n + 1\<close> sleeps, with the logger unchanged;
  and if no length read is ever 0, it does not return.
\<close>

theorem Close_polls:
  "(buf (logChan l) = [] \<longrightarrow> Close l later = Some (l, []))
   \<and> (buf (logChan l) \<noteq> [] \<and> (\<forall>j<n. 0 < later j) \<and> later n = 0 \<longrightarrow>
        Close l later = Some (l, replicate (Suc n) (Sleep 100)))
   \<and> (buf (logChan l) \<noteq> [] \<and> (\<forall>j. 0 < later j) \<longrightarrow> Close l later = None)"
proof -
  have a: "buf (logChan l) = [] \<longrightarrow> Close l later = Some (l, [])"
    by (simp add: Close_def Close_loop_done)
  have b: "buf (logChan l) \<noteq> [] \<and> (\<forall>j<n. 0 < later j) \<and> later n = 0 \<longrightarrow>
        Close l later = Some (l, replicate (Suc n) (Sleep 100))"
    using Close_loop_finite[of "length (buf (logChan l))" n later 0 "[]"]
    by (simp add: Close_def)
  have c: "buf (logChan l) \<noteq> [] \<and> (\<forall>j. 0 < later j) \<longrightarrow> Close l later = None"
  proof
    assume h: "buf (logChan l) \<noteq> [] \<and> (\<forall>j. 0 < later j)"
    have "Close_loop later 0 (length (buf (logChan l))) [] = None"
    proof (cases "Close_loop later 0 (length (buf (logChan l))) []")
      case None
      then show ?thesis .
    next
      case (Some y)
      from Close_loop_Some[OF Some] h show ?thesis by (metis length_0_conv less_numeral_extra(3))
    qed
    then show "Close l later = None" by (simp add: Close_def)
  qed
  from a b c show ?thesis by blast
qed

theorem Close_polls_witness:
  "Close (fst init) (\<lambda>k. 0) = Some (fst init, [])
   \<and> Close busy_logger (\<lambda>k. if k < 2 then 1 else 0) = Some (busy_logger, [Sleep 100, Sleep 100, Sleep 100])
   \<and> Close busy_logger (\<lambda>k. 1) = None"
proof -
  have e: "buf (logChan (fst init)) = []" by (simp add: init_def)
  have b: "buf (logChan busy_logger) \<noteq> []" by (simp add: busy_logger_def)
  have p: "(\<forall>j<2. 0 < (if j < 2 then 1 else 0 :: nat)) \<and> (if (2::nat) < 2 then 1 else 0 :: nat) = 0" by simp
  have q: "\<forall>j::nat. 0 < (1::nat)" by simp
  have r: "replicate (Suc 2) (Sleep 100) = [Sleep 100, Sleep 100, Sleep 100]"
    by (simp add: numeral_2_eq_2)
  from Close_polls[of "fst init" "\<lambda>k. 0" 0] Close_polls[of busy_logger "\<lambda>k. if k < 2 then 1 else 0" 2]
    Close_polls[of busy_logger "\<lambda>k. 1" 0] e b p q r
  show ?thesis by simp
qed

section \<open>The dispatch worker\<close>

subsection \<open>The report of an error\<close>

lemma funcName_daemon: "funcName_of (pkg @ ''.(*Log).daemon'') = ''Log.daemon''"
  by code_simp

lemma funcName_newFile: "funcName_of (pkg @ ''.(*Log).newFile'') = ''Log.newFile''"
  by code_simp

lemma ERR_error:
  "ERR l (fr # rest) (ErrorValue err) prompt None =
     (if Priority l < LOG_ERR then (Returned, l, [])
      else if length (buf (logChan l)) < cap (logChan l)
      then (Returned,
            l\<lparr>logChan := (logChan l)\<lparr>buf := buf (logChan l) @
               [report_line (funcName_of (fn_name fr)) (fn_line fr) prompt err]\<rparr>\<rparr>,
            [Caller 2, Send (report_line (funcName_of (fn_name fr)) (fn_line fr) prompt err)])
      else (Blocked, l, [Caller 2]))"
  by (simp add: ERR_def format_prompt_def anyErrToString_def Log_def caller_info_def
      runtime_Caller_def report_line_def Let_def)

lemma report_return_eq:
  "report_return d n err prompt =
     (if Priority (lg d) < LOG_ERR then (Stopped, d, [])
      else if length (buf (logChan (lg d))) < cap (logChan (lg d))
      then (Stopped,
            set_buf d (buf (logChan (lg d)) @ [report_line ''Log.daemon'' n prompt err]),
            [Caller 2, Send (report_line ''Log.daemon'' n prompt err)])
      else (Deadlocked, d, [Caller 2]))"
  by (simp add: report_return_def report_def ERR_error method_frame_def funcName_daemon
      set_buf_def of_result_def)

lemma report_newFile_eq:
  "report d [method_frame ''newFile'' k, method_frame ''daemon'' at] err prompt =
     (if Priority (lg d) < LOG_ERR then (Returned, d, [])
      else if length (buf (logChan (lg d))) < cap (logChan (lg d))
      then (Returned,
            set_buf d (buf (logChan (lg d)) @ [report_line ''Log.newFile'' k prompt err]),
            [Caller 2, Send (report_line ''Log.newFile'' k prompt err)])
      else (Blocked, d, [Caller 2]))"
  by (simp add: report_def ERR_error method_frame_def funcName_newFile set_buf_def)

lemma after_fatal_append:
  "after_fatal (ev @ ev') = (case after_fatal ev of
       Some (x, post) \<Rightarrow> Some (x, post @ ev')
     | None \<Rightarrow> after_fatal ev')"
  by (induction ev) (auto split: option.splits)

lemma reported_not_Running: "reported c l x post \<Longrightarrow> c = Stopped \<or> c = Deadlocked"
  by (auto simp: reported_def split: prod.splits)

lemma turn_ok_Running:
  "turn_ok (Running, d, ev) \<Longrightarrow> after_fatal ev = None"
  by (auto simp: turn_ok_def dest: reported_not_Running split: option.splits)

lemma turn_ok_andThen:
  assumes "turn_ok r" and "\<And>d. turn_ok (f d)"
  shows "turn_ok (andThen r f)"
proof -
  obtain c d ev where r: "r = (c, d, ev)" by (cases r) auto
  show ?thesis
  proof (cases "c = Running")
    case True
    obtain c2 d2 ev2 where f: "f d = (c2, d2, ev2)" by (cases "f d") auto
    have n: "after_fatal ev = None" using assms(1) r True by (simp add: turn_ok_Running)
    have "turn_ok (c2, d2, ev2)" using assms(2)[of d] f by simp
    then have "turn_ok (c2, d2, ev @ ev2)"
      using n by (auto simp: turn_ok_def after_fatal_append)
    then show ?thesis using r True f by (simp add: andThen_def)
  next
    case False
    then have "andThen r f = r" using r by (cases c) (simp_all add: andThen_def)
    then show ?thesis using assms(1) by simp
  qed
qed

lemma turn_ok_report_return:
  "turn_ok (case report_return d n err prompt of (c, d', ev') \<Rightarrow> (c, d', e # ev'))"
  if "fatal e = Some (err, prompt, n)" "sink_failed e"
  using that
  by (simp add: report_return_eq turn_ok_def reported_def set_buf_def)

lemma run_stopped:
  "w_status s \<noteq> Running \<Longrightarrow> w_status (run acts s) = w_status s \<and> w_trace (run acts s) = w_trace s"
proof (induction acts arbitrary: s)
  case Nil
  show ?case by simp
next
  case (Cons a acts)
  show ?case
  proof (cases a)
    case Work
    then show ?thesis using Cons by (simp add: worker_turn_def)
  next
    case (Produce x)
    have "w_status (producer_send x s) = w_status s" "w_trace (producer_send x s) = w_trace s"
      by (simp_all add: producer_send_def Let_def)
    then show ?thesis using Cons Produce by simp
  qed
qed

subsection \<open>Every part of a turn has the shape \<open>turn_ok\<close>\<close>

lemma turn_ok_stdout: "turn_ok (stdout_part d mts)"
  by (simp add: stdout_part_def turn_ok_def split_def Let_def)

lemma turn_ok_syslog_connect: "turn_ok (syslog_connect d)"
proof (cases "syslogWriter (lg d)")
  case (Some sw)
  then show ?thesis by (simp add: syslog_connect_def turn_ok_def)
next
  case None
  note nil = this
  show ?thesis
  proof (cases "fst (os_call (wd d))")
    case None
    then show ?thesis using nil by (simp add: syslog_connect_def turn_ok_def split_def Let_def)
  next
    case (Some err)
    then show ?thesis
      using nil
        turn_ok_report_return[of "SyslogNew LOG_INFO (SyslogTag (lg d)) (Some err)" err
          "''Error creating syslog''" 41 "d\<lparr>wd := snd (os_call (wd d))\<rparr>"]
      by (simp add: syslog_connect_def split_def Let_def)
  qed
qed

lemma turn_ok_syslog_write: "turn_ok (syslog_write m d)"
proof (cases "fst (os_call (wd d))")
  case None
  then show ?thesis by (simp add: syslog_write_def turn_ok_def split_def Let_def)
next
  case (Some err)
  then show ?thesis
    using turn_ok_report_return[of "SyslogWrite m (Some err)" err
          "''Error writing to syslog''" 48 "d\<lparr>wd := snd (os_call (wd d))\<rparr>"]
    by (simp add: syslog_write_def split_def Let_def)
qed

lemma turn_ok_syslog: "turn_ok (syslog_part m d)"
  by (simp add: syslog_part_def turn_ok_andThen turn_ok_syslog_connect turn_ok_syslog_write)
    (simp add: turn_ok_def)

text \<open>What \<^verbatim>\<open>newFile\<close> can do: none of its events is one of the three failures.\<close>

lemma newFile_open_shape:
  "newFile_open d at = (r, d', ev) \<Longrightarrow>
     after_fatal ev = None \<and> (r = Returned \<or> (r = Blocked \<and> list_ex sink_failed ev))"
  by (auto simp: newFile_open_def report_newFile_eq split_def Let_def
      split: option.splits if_splits)

lemma newFile_shape:
  "newFile d at = (r, d', ev) \<Longrightarrow>
     after_fatal ev = None \<and> (r = Returned \<or> (r = Blocked \<and> list_ex sink_failed ev))"
proof (cases "fileWriter (lg d)")
  case None
  assume "newFile d at = (r, d', ev)"
  with None show ?thesis by (simp add: newFile_def newFile_open_shape)
next
  case (Some f)
  assume a: "newFile d at = (r, d', ev)"
  show ?thesis
  proof (cases "fst (File_Close f (wd d))")
    case (Some err)
    with a \<open>fileWriter (lg d) = Some f\<close> show ?thesis
      by (auto simp: newFile_def report_newFile_eq split_def Let_def split: if_splits)
  next
    case None
    obtain r2 d2 ev2 where o: "newFile_open (d\<lparr>lg := (lg d)\<lparr>fileWriter := Some (fst (snd (File_Close f (wd d))))\<rparr>,
        wd := snd (snd (File_Close f (wd d)))\<rparr>) at = (r2, d2, ev2)"
      by (metis prod_cases3)
    from newFile_open_shape[OF o] a None \<open>fileWriter (lg d) = Some f\<close> o show ?thesis
      by (auto simp: newFile_def split_def Let_def)
  qed
qed

lemma turn_ok_logfile_first: "turn_ok (logfile_first d)"
proof (cases "fileWriter (lg d) = None")
  case False
  then show ?thesis by (auto simp: logfile_first_def turn_ok_def)
next
  case True
  obtain r d' ev where n: "newFile d 55 = (r, d', ev)" by (metis prod_cases3)
  from newFile_shape[OF n] n True show ?thesis
    by (auto simp: logfile_first_def turn_ok_def of_result_def)
qed

lemma turn_ok_logfile_rotate: "turn_ok (logfile_rotate d)"
proof (cases "t_day (fst (time_Now (wd d))) \<noteq> oldDate d")
  case False
  then show ?thesis by (simp add: logfile_rotate_def turn_ok_def split_def Let_def)
next
  case True
  obtain r d' ev where n: "newFile (d\<lparr>wd := snd (time_Now (wd d))\<rparr>) 59 = (r, d', ev)"
    by (metis prod_cases3)
  from newFile_shape[OF n] n True show ?thesis
    by (auto simp: logfile_rotate_def turn_ok_def of_result_def split_def Let_def)
qed

lemma turn_ok_logfile_write: "turn_ok (logfile_write mts d)"
proof (cases "fst (File_Write (fileWriter (lg d)) (wd d))")
  case None
  then show ?thesis by (simp add: logfile_write_def turn_ok_def split_def Let_def)
next
  case (Some err)
  then show ?thesis
    using turn_ok_report_return[of "FileWrite (map_option f_name (fileWriter (lg d))) mts (Some err)" err
          "''Error writing to logfile''" 65 "d\<lparr>wd := snd (File_Write (fileWriter (lg d)) (wd d))\<rparr>"]
    by (simp add: logfile_write_def split_def Let_def)
qed

lemma turn_ok_logfile: "turn_ok (logfile_part mts d)"
  by (simp add: logfile_part_def turn_ok_andThen turn_ok_logfile_first turn_ok_logfile_rotate
      turn_ok_logfile_write)
    (simp add: turn_ok_def)

lemma turn_ok_daemon_iter: "turn_ok (daemon_iter d m)"
  by (simp add: daemon_iter_def split_def Let_def turn_ok_andThen turn_ok_stdout turn_ok_syslog
      turn_ok_logfile)

lemma Format_stamp_feb15: "Format_stamp feb15 = ''09:05:07.1234''"
  by code_simp

lemma failing_syslog_turn:
  "daemon_iter (failing_syslog_state q) m =
     (if length q < 1000
      then (Stopped,
            set_buf ((failing_syslog_state q)\<lparr>wd := world_at feb15 []\<rparr>)
              (q @ [report_line ''Log.daemon'' 48 ''Error writing to syslog'' ''EIO'']),
            [Print (''09:05:07.1234'' @ m) None, SyslogWrite m (Some ''EIO''), Caller 2,
             Send (report_line ''Log.daemon'' 48 ''Error writing to syslog'' ''EIO'')])
      else (Deadlocked, (failing_syslog_state q)\<lparr>wd := world_at feb15 []\<rparr>,
            [Print (''09:05:07.1234'' @ m) None, SyslogWrite m (Some ''EIO''), Caller 2]))"
  by (simp add: daemon_iter_def andThen_def stdout_part_def syslog_part_def syslog_connect_def
      syslog_write_def logfile_part_def report_return_eq time_Now_def os_call_def
      failing_syslog_state_def world_at_def init_def Format_stamp_feb15 LOG_ERR_def LOG_DEBUG_def
      set_buf_def)

text \<open>
  Claim C2 as it is written says that after a failure of \<^verbatim>\<open>syslog.New\<close>, of the syslog
  write or of the file write the worker reports once through \<^verbatim>\<open>ERR\<close> and then returns.
  It does not return when the queue is full at that moment: with 1000 messages pending
  and a failing syslog write, the send inside \<^verbatim>\<open>ERR\<close> blocks, and the worker, the only
  receiver of the queue, stays in it.
\<close>

theorem full_queue_blocks_worker:
  "fst (daemon_iter (failing_syslog_state (replicate 1000 example_line)) example_line) = Deadlocked
   \<and> fst (daemon_iter (failing_syslog_state (replicate 1000 example_line)) example_line) \<noteq> Stopped
   \<and> snd (snd (daemon_iter (failing_syslog_state (replicate 1000 example_line)) example_line)) =
        [Print (''09:05:07.1234'' @ example_line) None, SyslogWrite example_line (Some ''EIO''),
         Caller 2]"
  by (simp add: failing_syslog_turn)

text \<open>
  Claim C2, amended. In every turn of the loop, after the first failure of \<^verbatim>\<open>syslog.New\<close>,
  of the syslog write or of the file write the worker calls \<^verbatim>\<open>ERR\<close> once with that error
  and stops for good, with no other sink call in the rest of the turn: either the report
  is filtered out by the threshold or its line is put on the queue, and \<^verbatim>\<open>daemon\<close>
  returns; or the queue is full and the worker stays blocked in the send of the report.
  \<^verbatim>\<open>daemon\<close> returns after such a failure only. The worker never leaves the loop unless a
  call of the syslog or file sink failed in that turn, so a console write never stops it.
  Once it has left the loop it handles no message any more, whatever the producers
  enqueue: its control state and its trace stay as they are.
\<close>

theorem fatal_stop:
  assumes "daemon_iter d message = (c, d', ev)"
  shows "(\<forall>x post. after_fatal ev = Some (x, post) \<longrightarrow> reported c (lg d') x post)
       \<and> (c = Stopped \<longrightarrow> after_fatal ev \<noteq> None)
       \<and> (c \<noteq> Running \<longrightarrow> list_ex sink_failed ev)
       \<and> c \<noteq> Crashed
       \<and> (c \<noteq> Running \<longrightarrow>
            (\<forall>acts tr. w_status (run acts \<lparr>w_status = c, w_state = d', w_trace = tr\<rparr>) = c
               \<and> w_trace (run acts \<lparr>w_status = c, w_state = d', w_trace = tr\<rparr>) = tr))"
proof -
  have ok: "turn_ok (c, d', ev)"
    using turn_ok_daemon_iter[of d message] assms by simp
  have a: "\<forall>x post. after_fatal ev = Some (x, post) \<longrightarrow> reported c (lg d') x post"
    using ok by (auto simp: turn_ok_def)
  have b: "c = Stopped \<longrightarrow> after_fatal ev \<noteq> None"
    using ok by (auto simp: turn_ok_def split: option.splits)
  have e: "c \<noteq> Running \<longrightarrow> list_ex sink_failed ev"
    using ok by (auto simp: turn_ok_def)
  have f: "c \<noteq> Crashed"
    using ok by (auto simp: turn_ok_def dest: reported_not_Running split: option.splits)
  have g: "c \<noteq> Running \<longrightarrow>
            (\<forall>acts tr. w_status (run acts \<lparr>w_status = c, w_state = d', w_trace = tr\<rparr>) = c
               \<and> w_trace (run acts \<lparr>w_status = c, w_state = d', w_trace = tr\<rparr>) = tr)"
    using run_stopped[of "\<lparr>w_status = c, w_state = d', w_trace = tr\<rparr>" for tr] by simp
  from a b e f g show ?thesis by blast
qed

theorem fatal_stop_witness:
  "after_fatal (snd (snd (daemon_iter (failing_syslog_state []) example_line))) =
       Some ((''EIO'', ''Error writing to syslog'', 48),
             [Caller 2, Send (report_line ''Log.daemon'' 48 ''Error writing to syslog'' ''EIO'')])
   \<and> fst (daemon_iter (failing_syslog_state []) example_line) = Stopped
   \<and> reported Stopped (lg (fst (snd (daemon_iter (failing_syslog_state []) example_line))))
        (''EIO'', ''Error writing to syslog'', 48)
        [Caller 2, Send (report_line ''Log.daemon'' 48 ''Error writing to syslog'' ''EIO'')]
   \<and> list_ex sink_failed (snd (snd (daemon_iter (failing_syslog_state []) example_line)))
   \<and> w_trace (run [Produce example_line, Work]
        \<lparr>w_status = Stopped,
         w_state = fst (snd (daemon_iter (failing_syslog_state []) example_line)),
         w_trace = snd (snd (daemon_iter (failing_syslog_state []) example_line))\<rparr>)
       = snd (snd (daemon_iter (failing_syslog_state []) example_line))"
proof -
  have p: "daemon_iter (failing_syslog_state []) example_line =
     (fst (daemon_iter (failing_syslog_state []) example_line),
      fst (snd (daemon_iter (failing_syslog_state []) example_line)),
      snd (snd (daemon_iter (failing_syslog_state []) example_line)))"
    by simp
  have e: "after_fatal (snd (snd (daemon_iter (failing_syslog_state []) example_line))) =
       Some ((''EIO'', ''Error writing to syslog'', 48),
             [Caller 2, Send (report_line ''Log.daemon'' 48 ''Error writing to syslog'' ''EIO'')])"
    by (simp add: failing_syslog_turn)
  have c: "fst (daemon_iter (failing_syslog_state []) example_line) = Stopped"
    by (simp add: failing_syslog_turn)
  from fatal_stop[OF p] e c show ?thesis
    by (simp del: run.simps)
qed


section \<open>What reaches the sinks\<close>

lemma events_andThen:
  assumes "list_all P (snd (snd r))" and "\<And>d. list_all P (snd (snd (f d)))"
  shows "list_all P (snd (snd (andThen r f)))"
proof -
  obtain c d ev where r: "r = (c, d, ev)" by (cases r) auto
  show ?thesis
  proof (cases c)
    case Running
    obtain c2 d2 ev2 where f: "f d = (c2, d2, ev2)" by (cases "f d") auto
    from assms(2)[of d] f have "list_all P ev2" by simp
    with assms(1) r Running f show ?thesis by (simp add: andThen_def)
  qed (use assms(1) r in \<open>simp_all add: andThen_def\<close>)
qed

lemma carries_report_return:
  "list_all (carries mts m) (snd (snd (report_return d n err prompt)))"
  by (simp add: report_return_eq)

lemma carries_stdout: "list_all (carries mts m) (snd (snd (stdout_part d mts)))"
  by (simp add: stdout_part_def split_def Let_def)

lemma carries_syslog_connect: "list_all (carries mts m) (snd (snd (syslog_connect d)))"
  using carries_report_return[of mts m]
  by (simp add: syslog_connect_def split_def Let_def split: option.splits)

lemma carries_syslog_write: "list_all (carries mts m) (snd (snd (syslog_write m d)))"
  using carries_report_return[of mts m]
  by (simp add: syslog_write_def split_def Let_def split: option.splits)

lemma carries_syslog: "list_all (carries mts m) (snd (snd (syslog_part m d)))"
  by (simp add: syslog_part_def events_andThen carries_syslog_connect carries_syslog_write)

lemma carries_newFile_open: "list_all (carries mts m) (snd (snd (newFile_open d at)))"
  by (simp add: newFile_open_def report_newFile_eq split_def Let_def split: option.splits)

lemma carries_newFile: "list_all (carries mts m) (snd (snd (newFile d at)))"
  using carries_newFile_open[of mts m]
  by (simp add: newFile_def report_newFile_eq split_def Let_def split: option.splits)

lemma carries_logfile_first: "list_all (carries mts m) (snd (snd (logfile_first d)))"
  using carries_newFile[of mts m]
  by (simp add: logfile_first_def split_def)

lemma carries_logfile_rotate: "list_all (carries mts m) (snd (snd (logfile_rotate d)))"
  using carries_newFile[of mts m "d\<lparr>wd := snd (time_Now (wd d))\<rparr>" 59]
  by (auto simp: logfile_rotate_def split_def Let_def split: result.splits prod.splits)

lemma carries_logfile_write: "list_all (carries mts m) (snd (snd (logfile_write mts d)))"
  using carries_report_return[of mts m]
  by (simp add: logfile_write_def split_def Let_def split: option.splits)

lemma carries_logfile: "list_all (carries mts m) (snd (snd (logfile_part mts d)))"
  by (simp add: logfile_part_def events_andThen carries_logfile_first carries_logfile_rotate
      carries_logfile_write)

lemma carries_daemon_iter:
  "list_all (carries (Format_stamp (fst (time_Now (wd d))) @ m) m) (snd (snd (daemon_iter d m)))"
  by (simp add: daemon_iter_def split_def Let_def events_andThen carries_stdout carries_syslog
      carries_logfile)

lemma digit_char_values:
  "digits [digit_char 0]" "digits [digit_char 1]" "digits [digit_char 2]" "digits [digit_char 3]"
  "digits [digit_char 4]" "digits [digit_char 5]" "digits [digit_char 6]" "digits [digit_char 7]"
  "digits [digit_char 8]" "digits [digit_char 9]"
  by code_simp+

lemma digit_char_digit: "0 \<le> k \<Longrightarrow> k < 10 \<Longrightarrow> digits [digit_char k]"
proof -
  assume "0 \<le> k" "k < 10"
  then have "k = 0 \<or> k = 1 \<or> k = 2 \<or> k = 3 \<or> k = 4 \<or> k = 5 \<or> k = 6 \<or> k = 7 \<or> k = 8 \<or> k = 9"
    by arith
  then show ?thesis using digit_char_values by blast
qed

lemma digits_append: "digits (a @ b) = (digits a \<and> digits b)"
  by (simp add: digits_def)

lemma show_nat_digits: "0 \<le> n \<Longrightarrow> digits (show_nat n)"
proof (induction n rule: show_nat.induct)
  case (1 n)
  show ?case
  proof (cases "n < 10")
    case True
    with 1(2) show ?thesis by (subst show_nat.simps) (simp add: digit_char_digit)
  next
    case False
    have "digits (show_nat (n div 10))" using 1(1)[OF False] 1(2) by simp
    moreover have "digits [digit_char (n mod 10)]" by (rule digit_char_digit) simp_all
    ultimately show ?thesis using False by (subst show_nat.simps) (simp add: digits_append)
  qed
qed

lemma show_nat_length: "0 \<le> n \<Longrightarrow> n < 10 ^ Suc k \<Longrightarrow> length (show_nat n) \<le> Suc k"
proof (induction k arbitrary: n)
  case 0
  then show ?case by (subst show_nat.simps) simp
next
  case (Suc k)
  show ?case
  proof (cases "n < 10")
    case True
    then show ?thesis by (subst show_nat.simps) simp
  next
    case False
    have "n div 10 < 10 ^ Suc k" using Suc.prems(2) by simp
    moreover have "0 \<le> n div 10" using Suc.prems(1) by simp
    ultimately have "length (show_nat (n div 10)) \<le> Suc k" by (rule Suc.IH[rotated])
    then show ?thesis using False by (subst show_nat.simps) simp
  qed
qed

lemma zpad_field:
  "0 \<le> n \<Longrightarrow> n < 10 ^ Suc k \<Longrightarrow>
   length (zpad (Suc k) (show_nat n)) = Suc k \<and> digits (zpad (Suc k) (show_nat n))"
  using show_nat_length[of n k] show_nat_digits[of n]
  by (auto simp: zpad_def digits_def list_all_iff)

lemma stamp_fields:
  assumes "valid_clock t"
  shows "length (zpad 2 (show_nat (t_hour t))) = 2 \<and> digits (zpad 2 (show_nat (t_hour t)))
       \<and> length (zpad 2 (show_nat (t_minute t))) = 2 \<and> digits (zpad 2 (show_nat (t_minute t)))
       \<and> length (zpad 2 (show_nat (t_second t))) = 2 \<and> digits (zpad 2 (show_nat (t_second t)))
       \<and> length (zpad 4 (show_nat (t_nsec t div 100000))) = 4
       \<and> digits (zpad 4 (show_nat (t_nsec t div 100000)))"
proof -
  have h: "0 \<le> t_hour t" "t_hour t < 10 ^ Suc 1" "0 \<le> t_minute t" "t_minute t < 10 ^ Suc 1"
    "0 \<le> t_second t" "t_second t < 10 ^ Suc 1" "0 \<le> t_nsec t div 100000"
    "t_nsec t div 100000 < 10 ^ Suc 3"
    using assms by (auto simp: valid_clock_def)
  have two: "Suc 1 = 2" and four: "Suc 3 = 4" by simp_all
  from zpad_field[OF h(1,2)] zpad_field[OF h(3,4)] zpad_field[OF h(5,6)] zpad_field[OF h(7,8)]
  show ?thesis unfolding two four by blast
qed

lemma os_call_quiet: "os_results w = [] \<Longrightarrow> os_call w = (None, w)"
  by (simp add: os_call_def)

lemma time_Now_os_results: "os_results (snd (time_Now w)) = os_results w"
  by (simp add: time_Now_def split: list.splits)

lemma stdout_quiet:
  "os_results (wd d) = [] \<Longrightarrow> SendToStdout (lg d) \<Longrightarrow>
   stdout_part d mts = (Running, d, [Print mts None])"
  by (simp add: stdout_part_def os_call_quiet)

lemma syslog_quiet:
  assumes "os_results (wd d) = []" "SendToSyslog (lg d)"
  shows "\<exists>d' ev. syslog_part m d = (Running, d', ev) \<and> SyslogWrite m None \<in> set ev
          \<and> wd d' = wd d \<and> fileWriter (lg d') = fileWriter (lg d)
          \<and> SendToLogfile (lg d') = SendToLogfile (lg d)"
  using assms
  by (cases "syslogWriter (lg d)")
    (simp_all add: syslog_part_def syslog_connect_def syslog_write_def andThen_def os_call_quiet)

lemma newFile_open_quiet:
  assumes "os_results (wd d) = []"
  shows "\<exists>d' e f. newFile_open d at = (Returned, d', [e]) \<and> os_results (wd d') = []
          \<and> fileWriter (lg d') = Some f \<and> f_closed f = False \<and> oldDate d' = oldDate d"
  using assms time_Now_os_results[of "wd d"]
  by (simp add: newFile_open_def split_def Let_def os_call_quiet)

lemma newFile_quiet:
  assumes "os_results (wd d) = []" "\<forall>f. fileWriter (lg d) = Some f \<longrightarrow> f_closed f = False"
  shows "\<exists>d' ev f. newFile d at = (Returned, d', ev) \<and> os_results (wd d') = []
          \<and> fileWriter (lg d') = Some f \<and> f_closed f = False \<and> oldDate d' = oldDate d"
proof (cases "fileWriter (lg d)")
  case None
  with newFile_open_quiet[OF assms(1), of at] show ?thesis
    by (auto simp: newFile_def)
next
  case (Some f)
  let ?d1 = "d\<lparr>lg := (lg d)\<lparr>fileWriter := Some (f\<lparr>f_closed := True\<rparr>)\<rparr>, wd := wd d\<rparr>"
  have c: "File_Close f (wd d) = (None, f\<lparr>f_closed := True\<rparr>, wd d)"
    using assms Some by (simp add: File_Close_def os_call_quiet)
  have "os_results (wd ?d1) = []" using assms(1) by simp
  from newFile_open_quiet[OF this, of at] obtain d' e f' where
    o: "newFile_open ?d1 at = (Returned, d', [e])" "os_results (wd d') = []"
      "fileWriter (lg d') = Some f'" "f_closed f' = False" "oldDate d' = oldDate ?d1"
    by blast
  then show ?thesis using Some c by (simp add: newFile_def)
qed

lemma logfile_quiet:
  assumes "os_results (wd d) = []" "SendToLogfile (lg d)" "fileWriter (lg d) = None"
  shows "\<exists>d' ev f. logfile_part mts d = (Running, d', ev) \<and> FileWrite (Some f) mts None \<in> set ev"
proof -
  from newFile_quiet[of d 55] assms obtain d1 ev1 f1 where
    a: "newFile d 55 = (Returned, d1, ev1)" "os_results (wd d1) = []"
       "fileWriter (lg d1) = Some f1" "f_closed f1 = False"
    by auto
  have first: "logfile_first d = (Running, d1, ev1)"
    using a(1) assms(3) by (simp add: logfile_first_def of_result_def)
  have "\<exists>d2 ev2 f2. logfile_rotate d1 = (Running, d2, ev2) \<and> os_results (wd d2) = []
          \<and> fileWriter (lg d2) = Some f2 \<and> f_closed f2 = False"
  proof (cases "t_day (fst (time_Now (wd d1))) \<noteq> oldDate d1")
    case False
    then show ?thesis using a time_Now_os_results[of "wd d1"]
      by (simp add: logfile_rotate_def split_def Let_def)
  next
    case True
    let ?d = "d1\<lparr>wd := snd (time_Now (wd d1))\<rparr>"
    have "os_results (wd ?d) = []" using a(2) by (simp add: time_Now_os_results)
    moreover have "\<forall>f. fileWriter (lg ?d) = Some f \<longrightarrow> f_closed f = False" using a(3,4) by simp
    ultimately obtain d2 ev2 f2 where
      "newFile ?d 59 = (Returned, d2, ev2)" "os_results (wd d2) = []"
      "fileWriter (lg d2) = Some f2" "f_closed f2 = False"
      using newFile_quiet[of ?d 59] by blast
    then show ?thesis using True
      by (simp add: logfile_rotate_def split_def Let_def)
  qed
  then obtain d2 ev2 f2 where
    r: "logfile_rotate d1 = (Running, d2, ev2)" "os_results (wd d2) = []"
       "fileWriter (lg d2) = Some f2" "f_closed f2 = False"
    by blast
  have w: "logfile_write mts d2 = (Running, d2, [FileWrite (Some (f_name f2)) mts None])"
    using r by (simp add: logfile_write_def File_Write_def os_call_quiet)
  show ?thesis using assms(2) first r(1) w by (auto simp: logfile_part_def andThen_def)
qed

lemma quiet_turn:
  assumes "SendToStdout (lg d)" "SendToSyslog (lg d)" "SendToLogfile (lg d)"
    and "os_results (wd d) = []" and "fileWriter (lg d) = None"
  shows "fst (daemon_iter d m) = Running
       \<and> Print (Format_stamp (fst (time_Now (wd d))) @ m) None \<in> set (snd (snd (daemon_iter d m)))
       \<and> SyslogWrite m None \<in> set (snd (snd (daemon_iter d m)))
       \<and> (\<exists>f. FileWrite (Some f) (Format_stamp (fst (time_Now (wd d))) @ m) None
               \<in> set (snd (snd (daemon_iter d m))))"
proof -
  let ?mts = "Format_stamp (fst (time_Now (wd d))) @ m"
  let ?d0 = "d\<lparr>wd := snd (time_Now (wd d))\<rparr>"
  have q0: "os_results (wd ?d0) = []" using assms(4) by (simp add: time_Now_os_results)
  have s: "stdout_part ?d0 ?mts = (Running, ?d0, [Print ?mts None])"
    using q0 assms(1) by (simp add: stdout_quiet)
  from syslog_quiet[of ?d0 m] q0 assms(2) obtain d1 ev1 where
    y: "syslog_part m ?d0 = (Running, d1, ev1)" "SyslogWrite m None \<in> set ev1"
       "wd d1 = wd ?d0" "fileWriter (lg d1) = fileWriter (lg ?d0)"
       "SendToLogfile (lg d1) = SendToLogfile (lg ?d0)"
    by auto
  from logfile_quiet[of d1 ?mts] y q0 assms(3,5) obtain d2 ev2 f where
    l: "logfile_part ?mts d1 = (Running, d2, ev2)" "FileWrite (Some f) ?mts None \<in> set ev2"
    by auto
  have "daemon_iter d m = (Running, d2, [Print ?mts None] @ ev1 @ ev2)"
    using s y(1) l(1) by (simp add: daemon_iter_def split_def Let_def andThen_def)
  then show ?thesis using y(2) l(2) by auto
qed

lemma all_sinks_turn:
  "fst (daemon_iter all_sinks_state example_line) = Running"
  "snd (snd (daemon_iter all_sinks_state example_line)) =
     [Print (''09:05:07.1234'' @ example_line) None,
      SyslogNew 6 ''GOLOGGER'' None,
      SyslogWrite example_line None,
      OpenFile ''app_2024-02-15.log'' [O_APPEND, O_CREATE, O_WRONLY] 384 None,
      FileWrite (Some ''app_2024-02-15.log'') (''09:05:07.1234'' @ example_line) None]"
  "example_line = ''|I|main.main():10 hello'' @ [newline]"
  by code_simp+

text \<open>
  Claim C4. In every turn of the loop, every record handed to the console and every
  record handed to the file is the line received from the queue with the timestamp of
  that turn before it, and every record handed to syslog is that line without the
  timestamp; with the three sinks enabled and no failure, each of them gets its record.
  The timestamp has the layout \<^verbatim>\<open>HH:MM:SS.ffff\<close> (two, two, two and four decimal digits
  for a reading of the clock), and the line that \<^verbatim>\<open>Log\<close> enqueues has the layout
  \<^verbatim>\<open>|<L>|<func>():<line> <message>\<close> followed by a newline, so that the record for the
  console and the file is \<^verbatim>\<open>HH:MM:SS.ffff|<L>|<func>():<line> <message>\<close> with a newline.
\<close>

theorem sink_records:
  assumes "daemon_iter d m = (c, d', ev)"
  shows "(\<forall>x r. Print x r \<in> set ev \<longrightarrow> x = Format_stamp (fst (time_Now (wd d))) @ m)
       \<and> (\<forall>f x r. FileWrite f x r \<in> set ev \<longrightarrow> x = Format_stamp (fst (time_Now (wd d))) @ m)
       \<and> (\<forall>x r. SyslogWrite x r \<in> set ev \<longrightarrow> x = m)
       \<and> (SendToStdout (lg d) \<and> SendToSyslog (lg d) \<and> SendToLogfile (lg d)
            \<and> os_results (wd d) = [] \<and> fileWriter (lg d) = None \<longrightarrow>
              c = Running
            \<and> Print (Format_stamp (fst (time_Now (wd d))) @ m) None \<in> set ev
            \<and> SyslogWrite m None \<in> set ev
            \<and> (\<exists>f. FileWrite (Some f) (Format_stamp (fst (time_Now (wd d))) @ m) None \<in> set ev))
       \<and> Format_stamp t =
            zpad 2 (show_nat (t_hour t)) @ '':'' @ zpad 2 (show_nat (t_minute t)) @ '':'' @
            zpad 2 (show_nat (t_second t)) @ ''.'' @ zpad 4 (show_nat (t_nsec t div 100000))
       \<and> (valid_clock t \<longrightarrow>
              length (zpad 2 (show_nat (t_hour t))) = 2 \<and> digits (zpad 2 (show_nat (t_hour t)))
            \<and> length (zpad 2 (show_nat (t_minute t))) = 2 \<and> digits (zpad 2 (show_nat (t_minute t)))
            \<and> length (zpad 2 (show_nat (t_second t))) = 2 \<and> digits (zpad 2 (show_nat (t_second t)))
            \<and> length (zpad 4 (show_nat (t_nsec t div 100000))) = 4
            \<and> digits (zpad 4 (show_nat (t_nsec t div 100000))))
       \<and> (length (buf (logChan l)) < cap (logChan l) \<longrightarrow>
              last (buf (logChan (fst (snd (Log l stk depth level msg))))) =
                ''|'' @ fmt_c level @ ''|'' @
                fst (caller_info (method_frame ''Log'' 107 # stk) (2 + depth)) @ ''():'' @
                show_int (snd (caller_info (method_frame ''Log'' 107 # stk) (2 + depth))) @
                '' '' @ msg @ [newline])
       \<and> ((of_char level :: nat) < 128 \<longrightarrow> fmt_c level = [level])"
proof -
  let ?mts = "Format_stamp (fst (time_Now (wd d))) @ m"
  have all: "\<forall>e \<in> set ev. carries ?mts m e"
    using carries_daemon_iter[of d m] assms by (simp add: list_all_iff)
  have a: "\<forall>x r. Print x r \<in> set ev \<longrightarrow> x = ?mts"
    using all by fastforce
  have b: "\<forall>f x r. FileWrite f x r \<in> set ev \<longrightarrow> x = ?mts"
    using all by fastforce
  have s: "\<forall>x r. SyslogWrite x r \<in> set ev \<longrightarrow> x = m"
    using all by fastforce
  have q: "SendToStdout (lg d) \<and> SendToSyslog (lg d) \<and> SendToLogfile (lg d)
            \<and> os_results (wd d) = [] \<and> fileWriter (lg d) = None \<longrightarrow>
              c = Running
            \<and> Print ?mts None \<in> set ev
            \<and> SyslogWrite m None \<in> set ev
            \<and> (\<exists>f. FileWrite (Some f) ?mts None \<in> set ev)"
    using quiet_turn[of d m] assms by simp
  have f: "Format_stamp t =
            zpad 2 (show_nat (t_hour t)) @ '':'' @ zpad 2 (show_nat (t_minute t)) @ '':'' @
            zpad 2 (show_nat (t_second t)) @ ''.'' @ zpad 4 (show_nat (t_nsec t div 100000))"
    by (simp add: Format_stamp_def)
  have v: "valid_clock t \<longrightarrow>
              length (zpad 2 (show_nat (t_hour t))) = 2 \<and> digits (zpad 2 (show_nat (t_hour t)))
            \<and> length (zpad 2 (show_nat (t_minute t))) = 2 \<and> digits (zpad 2 (show_nat (t_minute t)))
            \<and> length (zpad 2 (show_nat (t_second t))) = 2 \<and> digits (zpad 2 (show_nat (t_second t)))
            \<and> length (zpad 4 (show_nat (t_nsec t div 100000))) = 4
            \<and> digits (zpad 4 (show_nat (t_nsec t div 100000)))"
    using stamp_fields[of t] by blast
  have g: "length (buf (logChan l)) < cap (logChan l) \<longrightarrow>
              last (buf (logChan (fst (snd (Log l stk depth level msg))))) =
                ''|'' @ fmt_c level @ ''|'' @
                fst (caller_info (method_frame ''Log'' 107 # stk) (2 + depth)) @ ''():'' @
                show_int (snd (caller_info (method_frame ''Log'' 107 # stk) (2 + depth))) @
                '' '' @ msg @ [newline]"
    by (simp add: Log_def log_line_def split_def Let_def)
  have h: "(of_char level :: nat) < 128 \<longrightarrow> fmt_c level = [level]"
    by (simp add: fmt_c_def)
  from a b s q f v g h show ?thesis by blast
qed

theorem sink_records_witness:
  "fst (daemon_iter all_sinks_state example_line) = Running
   \<and> Print (''09:05:07.1234'' @ example_line) None
        \<in> set (snd (snd (daemon_iter all_sinks_state example_line)))
   \<and> SyslogWrite example_line None \<in> set (snd (snd (daemon_iter all_sinks_state example_line)))
   \<and> FileWrite (Some ''app_2024-02-15.log'') (''09:05:07.1234'' @ example_line) None
        \<in> set (snd (snd (daemon_iter all_sinks_state example_line)))
   \<and> valid_clock feb15
   \<and> length (zpad 4 (show_nat (t_nsec feb15 div 100000))) = 4
   \<and> last (buf (logChan (fst (snd (Log (fst init) [] 0 (CHR ''I'') ''hello''))))) =
        ''|I|<nf>():0 hello'' @ [newline]
   \<and> fmt_c (CHR ''I'') = ''I''"
proof -
  have p: "daemon_iter all_sinks_state example_line =
     (fst (daemon_iter all_sinks_state example_line),
      fst (snd (daemon_iter all_sinks_state example_line)),
      snd (snd (daemon_iter all_sinks_state example_line)))"
    by simp
  have st: "Format_stamp (fst (time_Now (wd all_sinks_state))) = ''09:05:07.1234''"
    by (simp add: all_sinks_state_def world_at_def time_Now_def Format_stamp_feb15)
  have hyp: "SendToStdout (lg all_sinks_state)" "SendToSyslog (lg all_sinks_state)"
    "SendToLogfile (lg all_sinks_state)" "os_results (wd all_sinks_state) = []"
    "fileWriter (lg all_sinks_state) = None"
    by (simp_all add: all_sinks_state_def world_at_def init_def)
  have vc: "valid_clock feb15" by (simp add: valid_clock_def feb15_def)
  have room: "length (buf (logChan (fst init))) < cap (logChan (fst init))"
    by (simp add: init_def)
  have asc: "(of_char (CHR ''I'') :: nat) < 128" by simp
  have ci: "caller_info (method_frame ''Log'' 107 # []) (2 + 0) = (''<nf>'', 0)"
    by (simp add: caller_info_def runtime_Caller_def)
  have z: "show_int 0 = ''0''" by code_simp
  note t = sink_records[OF p, of feb15 "fst init" "[]" 0 "CHR ''I''" "''hello''"]
  from t hyp vc room asc st ci z all_sinks_turn(2) show ?thesis
    by simp
qed


end
